theory Spec2Isabelle
  imports Complex_Main
begin

chapter \<open>The embedding\<close>

section \<open>JavaScript numbers (IEEE 754 binary64)\<close>

text \<open>
  A JavaScript number is an IEEE 754 double: a finite value, \<^verbatim>\<open>Infinity\<close>, \<^verbatim>\<open>-Infinity\<close>
  or \<^verbatim>\<open>NaN\<close>. A finite double is given by the real it denotes; the two zeros are
  one value (the sums, products, roundings and comparisons below do not tell them apart).
  The confidence score is computed in this arithmetic. The numbers of a JSON reply and
  the similarities of the retrieval are carried as reals, and the mean of the judge's
  four scores and the cosine similarity are computed exactly.
\<close>

datatype double = Finite real | PlusInfinity | MinusInfinity | NotANumber

definition pow2 :: "int \<Rightarrow> real" where
  "pow2 e = (if 0 \<le> e then 2 ^ nat e else 1 / 2 ^ nat (- e))"

text \<open>
  \<open>binary_exponent n lo x\<close>, by bisection: the largest \<open>e\<close> among
  \<open>lo, \<dots>, lo + 2\<^sup>n - 1\<close> with \<open>2\<^sup>e \<le> x\<close>, and \<open>lo\<close> when there is none. From
  \<open>lo = -1022\<close> that is the exponent of a normal double, and \<open>-1022\<close> for the
  subnormal ones.
\<close>

primrec binary_exponent :: "nat \<Rightarrow> int \<Rightarrow> real \<Rightarrow> int" where
  "binary_exponent 0 lo x = lo"
| "binary_exponent (Suc n) lo x =
     (if pow2 (lo + 2 ^ n) \<le> x then binary_exponent n (lo + 2 ^ n) x else binary_exponent n lo x)"

text \<open>The nearest integer, a half rounded to the even neighbour.\<close>

definition round_half_even :: "real \<Rightarrow> int" where
  "round_half_even y =
     (if y - real_of_int \<lfloor>y\<rfloor> < 1 / 2 then \<lfloor>y\<rfloor>
      else if y - real_of_int \<lfloor>y\<rfloor> > 1 / 2 then \<lfloor>y\<rfloor> + 1
      else if even \<lfloor>y\<rfloor> then \<lfloor>y\<rfloor> else \<lfloor>y\<rfloor> + 1)"

text \<open>
  Rounding of an exact result to a double (round to nearest, ties to even): the
  significand has 53 bits, so the result is a multiple of \<open>2\<^sup>q\<close> with \<open>q\<close> the exponent
  less 52, and a result of magnitude \<open>2\<^sup>1\<^sup>0\<^sup>2\<^sup>4\<close> or more is infinite. It is also the
  value of a decimal literal such as \<^verbatim>\<open>0.4\<close>.
\<close>

definition to_double :: "real \<Rightarrow> double" where
  "to_double x =
     (let q = binary_exponent 11 (- 1022) \<bar>x\<bar> - 52;
          y = real_of_int (round_half_even (x / pow2 q)) * pow2 q
      in if pow2 1024 \<le> y then PlusInfinity
         else if y \<le> - pow2 1024 then MinusInfinity
         else Finite y)"

text \<open>The operators \<^verbatim>\<open>*\<close> and \<^verbatim>\<open>+\<close> on numbers.\<close>

fun times_double :: "double \<Rightarrow> double \<Rightarrow> double" where
  "times_double (Finite a) (Finite b) = to_double (a * b)"
| "times_double NotANumber y = NotANumber"
| "times_double x NotANumber = NotANumber"
| "times_double (Finite a) PlusInfinity =
     (if a = 0 then NotANumber else if 0 < a then PlusInfinity else MinusInfinity)"
| "times_double (Finite a) MinusInfinity =
     (if a = 0 then NotANumber else if 0 < a then MinusInfinity else PlusInfinity)"
| "times_double PlusInfinity (Finite b) =
     (if b = 0 then NotANumber else if 0 < b then PlusInfinity else MinusInfinity)"
| "times_double MinusInfinity (Finite b) =
     (if b = 0 then NotANumber else if 0 < b then MinusInfinity else PlusInfinity)"
| "times_double PlusInfinity PlusInfinity = PlusInfinity"
| "times_double PlusInfinity MinusInfinity = MinusInfinity"
| "times_double MinusInfinity PlusInfinity = MinusInfinity"
| "times_double MinusInfinity MinusInfinity = PlusInfinity"

fun plus_double :: "double \<Rightarrow> double \<Rightarrow> double" where
  "plus_double (Finite a) (Finite b) = to_double (a + b)"
| "plus_double NotANumber y = NotANumber"
| "plus_double x NotANumber = NotANumber"
| "plus_double PlusInfinity MinusInfinity = NotANumber"
| "plus_double MinusInfinity PlusInfinity = NotANumber"
| "plus_double PlusInfinity y = PlusInfinity"
| "plus_double MinusInfinity y = MinusInfinity"
| "plus_double (Finite a) y = y"

text \<open>
  \<^verbatim>\<open>Math.round\<close>: the nearest integer, a half rounded towards plus infinity. The result
  is exact (an integer nearest to a double is a double); \<^verbatim>\<open>Infinity\<close>, \<^verbatim>\<open>-Infinity\<close>
  and \<^verbatim>\<open>NaN\<close> are returned as they are.
\<close>

definition Math_round :: "real \<Rightarrow> int" where
  "Math_round x = \<lfloor>x + 1 / 2\<rfloor>"

fun Math_round_double :: "double \<Rightarrow> double" where
  "Math_round_double (Finite x) = Finite (real_of_int (Math_round x))"
| "Math_round_double x = x"

text \<open>\<^verbatim>\<open>x >= c\<close> for a finite \<open>c\<close>: false when \<open>x\<close> is \<^verbatim>\<open>NaN\<close>.\<close>

fun at_least :: "double \<Rightarrow> real \<Rightarrow> bool" where
  "at_least (Finite x) c = (c \<le> x)"
| "at_least PlusInfinity c = True"
| "at_least MinusInfinity c = False"
| "at_least NotANumber c = False"

section \<open>Engine configuration (config.ts)\<close>

text \<open>
  The confidence weights are the doubles that the literals \<^verbatim>\<open>0.4\<close>, \<^verbatim>\<open>0.3\<close>, \<^verbatim>\<open>0.2\<close>
  and \<^verbatim>\<open>0.1\<close> denote.
\<close>

record model_names =
  m_primaryCode :: string
  m_alternativeCode :: string

record confidence_weights =
  w_judge :: double
  w_runtime :: double
  w_static :: double
  w_docSimilarity :: double

record retry_config =
  maxAttempts :: nat
  baseDelayMs :: nat
  maxDelayMs :: nat

record engine_config =
  models :: model_names
  confidenceWeights :: confidence_weights
  retry :: retry_config
  maxFixAttempts :: nat

definition ENGINE_CONFIG :: engine_config where
  "ENGINE_CONFIG =
     \<lparr> models = \<lparr> m_primaryCode = ''gpt-4.1-mini'', m_alternativeCode = ''gpt-4o-mini'' \<rparr>,
       confidenceWeights =
         \<lparr> w_judge = to_double (4 / 10), w_runtime = to_double (3 / 10),
           w_static = to_double (2 / 10), w_docSimilarity = to_double (1 / 10) \<rparr>,
       retry = \<lparr> maxAttempts = 3, baseDelayMs = 1000, maxDelayMs = 10000 \<rparr>,
       maxFixAttempts = 2 \<rparr>"

section \<open>Confidence scoring (confidenceService.ts)\<close>

datatype verification_status = verified | partial | unverified

record confidence_breakdown =
  b_judgeScore :: double
  b_runtimeScore :: double
  b_staticScore :: double
  b_docSimilarity :: double

record ConfidenceResult =
  confidenceScore :: double
  verificationStatus :: verification_status
  breakdown :: confidence_breakdown

text \<open>
  The products and sums are those of the source, in its order: every one of them is
  rounded to a double.
\<close>

definition calculateConfidence :: "double \<Rightarrow> double \<Rightarrow> double \<Rightarrow> double \<Rightarrow> ConfidenceResult" where
  "calculateConfidence judgeScore runtimeScore staticScore docSimilarity =
     (let w = confidenceWeights ENGINE_CONFIG;
          normalizedDocSim = Math_round_double (times_double docSimilarity (Finite 100));
          confidenceScore =
            Math_round_double
              (plus_double
                 (plus_double
                    (plus_double (times_double judgeScore (w_judge w))
                                 (times_double runtimeScore (w_runtime w)))
                    (times_double staticScore (w_static w)))
                 (times_double normalizedDocSim (w_docSimilarity w)));
          verificationStatus =
            (if at_least confidenceScore 75 \<and> at_least runtimeScore 70 \<and> at_least staticScore 60
             then verified
             else if at_least confidenceScore 50 then partial
             else unverified)
      in \<lparr> confidenceScore = confidenceScore,
           verificationStatus = verificationStatus,
           breakdown = \<lparr> b_judgeScore = judgeScore, b_runtimeScore = runtimeScore,
                         b_staticScore = staticScore, b_docSimilarity = normalizedDocSim \<rparr> \<rparr>)"

section \<open>JavaScript values, errors and strings\<close>

text \<open>A thrown error, by its constructor, with its message.\<close>

datatype js_error = Error string | TypeError string | SyntaxError string

fun error_message :: "js_error \<Rightarrow> string" where
  "error_message (Error m) = m"
| "error_message (TypeError m) = m"
| "error_message (SyntaxError m) = m"

text \<open>The values \<^verbatim>\<open>JSON.parse\<close> returns. An object lists its properties in source order.\<close>

datatype json =
  JNull | JBool bool | JNum real | JStr string | JArr "json list" | JObj "(string \<times> json) list"

text \<open>
  The outcome of a \<^verbatim>\<open>chatCompletion\<close> call whose text the caller hands to
  \<^verbatim>\<open>JSON.parse\<close>: the call throws (with a message), or it returns a text that
  \<^verbatim>\<open>JSON.parse\<close> rejects, or a text that parses to a value.
\<close>

datatype completion = Throws string | Unparseable string | Parses json

text \<open>
  Reading a property of a parsed value that is not \<^verbatim>\<open>null\<close>; \<open>None\<close> is
  \<^verbatim>\<open>undefined\<close>. Of a repeated key \<^verbatim>\<open>JSON.parse\<close> keeps the last value. The
  engine reads no property that strings, numbers or arrays have of their own.
\<close>

fun get :: "json \<Rightarrow> string \<Rightarrow> json option" where
  "get (JObj kvs) k = map_of (rev kvs) k"
| "get _ k = None"

fun truthy :: "json option \<Rightarrow> bool" where
  "truthy None = False"
| "truthy (Some JNull) = False"
| "truthy (Some (JBool b)) = b"
| "truthy (Some (JNum x)) = (x \<noteq> 0)"
| "truthy (Some (JStr s)) = (s \<noteq> [])"
| "truthy (Some (JArr xs)) = True"
| "truthy (Some (JObj kvs)) = True"

text \<open>
  Strings are lists of 8-bit characters. \<open>show_nat\<close> writes a natural number in decimal,
  as a template string does.
\<close>

fun show_nat :: "nat \<Rightarrow> string" where
  "show_nat n =
     (if n < 10 then [''0123456789'' ! n]
      else show_nat (n div 10) @ [''0123456789'' ! (n mod 10)])"

declare show_nat.simps [simp del]

text \<open>
  \<^verbatim>\<open>trim\<close> and the class \<^verbatim>\<open>\s\<close>, on the ASCII white space: space, tab, line feed,
  vertical tab, form feed, carriage return.
\<close>

definition is_space :: "char \<Rightarrow> bool" where
  "is_space c = (c \<in> set [CHR '' '', CHR 0x09, CHR 0x0A, CHR 0x0B, CHR 0x0C, CHR 0x0D])"

definition trim :: "string \<Rightarrow> string" where
  "trim s = rev (dropWhile is_space (rev (dropWhile is_space s)))"

text \<open>\<^verbatim>\<open>toLowerCase\<close> on the ASCII letters.\<close>

definition toLowerCase :: "string \<Rightarrow> string" where
  "toLowerCase s =
     map (\<lambda>c. case map_of (zip ''ABCDEFGHIJKLMNOPQRSTUVWXYZ'' ''abcdefghijklmnopqrstuvwxyz'') c of
                 Some l \<Rightarrow> l | None \<Rightarrow> c) s"

text \<open>\<^verbatim>\<open>Array.prototype.join\<close> on strings.\<close>

fun join :: "string \<Rightarrow> string list \<Rightarrow> string" where
  "join sep [] = []"
| "join sep [x] = x"
| "join sep (x # y # ys) = x @ sep @ join sep (y # ys)"

section \<open>Validation (validationService.ts)\<close>

text \<open>
  The regular expressions of the static checks, by name. Matching itself is a parameter
  \<open>test\<close> of the analysis: \<open>test p code\<close> stands for \<^verbatim>\<open>pattern.test(code)\<close>.
\<close>

datatype regex =
  EvalCall         \<comment> \<open>\<^verbatim>\<open>/eval\s*\(/\<close>\<close>
| TodoMarker       \<comment> \<open>\<^verbatim>\<open>/TODO|FIXME|HACK/i\<close>\<close>
| ConsoleCall      \<comment> \<open>\<^verbatim>\<open>/console\.(log|warn|error)/\<close>\<close>
| Credentials      \<comment> \<open>\<^verbatim>\<open>/password|secret|api_key|apikey/i\<close>\<close>
| AnyType          \<comment> \<open>\<^verbatim>\<open>/any\b/\<close>\<close>
| TsIgnore         \<comment> \<open>\<^verbatim>\<open>/\/\/\s*@ts-ignore/\<close>\<close>
| VarKeyword       \<comment> \<open>\<^verbatim>\<open>/var\s+/\<close>\<close>
| LooseEquality    \<comment> \<open>\<^verbatim>\<open>/==(?!=)/\<close>\<close>
| BareExcept       \<comment> \<open>\<^verbatim>\<open>/except:(?!\s*\w)/\<close>\<close>
| WildcardImport   \<comment> \<open>\<^verbatim>\<open>/import \*/\<close>\<close>

record check =
  pattern :: regex
  message :: string
  penalty :: int

text \<open>The em dash of the first message, in UTF-8.\<close>

definition em_dash :: string where
  "em_dash = [CHR 0xE2, CHR 0x80, CHR 0x94]"

definition common_checks :: "check list" where
  "common_checks =
     [ \<lparr> pattern = EvalCall,
         message = ''Uses eval() '' @ em_dash @ '' potential security risk'', penalty = 15 \<rparr>,
       \<lparr> pattern = TodoMarker, message = ''Contains TODO/FIXME markers'', penalty = 5 \<rparr>,
       \<lparr> pattern = ConsoleCall, message = ''Contains console statements'', penalty = 3 \<rparr>,
       \<lparr> pattern = Credentials, message = ''Possible hardcoded credentials'', penalty = 20 \<rparr>,
       \<lparr> pattern = AnyType, message = ''Uses 'any' type (TypeScript)'', penalty = 5 \<rparr>,
       \<lparr> pattern = TsIgnore, message = ''Uses @ts-ignore'', penalty = 10 \<rparr> ]"

definition javascript_checks :: "check list" where
  "javascript_checks =
     [ \<lparr> pattern = VarKeyword, message = ''Uses 'var' instead of const/let'', penalty = 5 \<rparr>,
       \<lparr> pattern = LooseEquality,
         message = ''Uses loose equality (==) instead of strict (===)'', penalty = 5 \<rparr> ]"

definition python_checks :: "check list" where
  "python_checks =
     [ \<lparr> pattern = BareExcept, message = ''Bare except clause in Python'', penalty = 10 \<rparr>,
       \<lparr> pattern = WildcardImport, message = ''Wildcard import'', penalty = 5 \<rparr> ]"

text \<open>The loop over the checks, on the pair of the running score and the issues.\<close>

fun run_checks ::
  "(regex \<Rightarrow> string \<Rightarrow> bool) \<Rightarrow> string \<Rightarrow> check list \<Rightarrow> int \<times> string list \<Rightarrow> int \<times> string list"
where
  "run_checks test code [] acc = acc"
| "run_checks test code (c # cs) (score, issues) =
     run_checks test code cs
       (if test (pattern c) code then (score - penalty c, issues @ [message c])
        else (score, issues))"

definition count_chars :: "string \<Rightarrow> string \<Rightarrow> nat" where
  "count_chars cs code = length (filter (\<lambda>c. c \<in> set cs) code)"

record static_result =
  sr_score :: int
  sr_issues :: "string list"

definition staticAnalysis :: "(regex \<Rightarrow> string \<Rightarrow> bool) \<Rightarrow> string \<Rightarrow> string \<Rightarrow> static_result" where
  "staticAnalysis test code language =
     (if code = [] \<or> length (trim code) < 10
      then \<lparr> sr_score = 0, sr_issues = [''Code is empty or too short''] \<rparr>
      else
        let checks =
              common_checks
              @ (if toLowerCase language = ''javascript'' \<or> toLowerCase language = ''typescript''
                 then javascript_checks else [])
              @ (if toLowerCase language = ''python'' then python_checks else []);
            (score1, issues1) = run_checks test code checks (100, []);
            opens = count_chars ''([{'' code;
            closes = count_chars '')]}'' code;
            (score2, issues2) =
              (if opens = closes then (score1, issues1)
               else (score1 - 15,
                     issues1 @ [''Bracket imbalance: '' @ show_nat opens @ '' opens vs ''
                                @ show_nat closes @ '' closes'']))
        in \<lparr> sr_score = max 0 (min 100 score2), sr_issues = issues2 \<rparr>)"

record runtime_result =
  rr_score :: real
  rr_error :: "json option"

text \<open>
  The body of the \<^verbatim>\<open>try\<close> block of \<^verbatim>\<open>runtimeValidation\<close>, given the outcome
  of its model call: \<open>Inl\<close> is what the block throws. \<open>rr_error = None\<close> is
  \<^verbatim>\<open>null\<close>.
\<close>

definition runtimeValidation_try :: "completion \<Rightarrow> js_error + runtime_result" where
  "runtimeValidation_try reply =
     (case reply of
        Throws m \<Rightarrow> Inl (Error m)
      | Unparseable raw \<Rightarrow> Inl (SyntaxError raw)
      | Parses parsed \<Rightarrow>
          if parsed = JNull then Inl (TypeError ''Cannot read properties of null'')
          else
            let score = (case get parsed ''score'' of
                           Some (JNum x) \<Rightarrow> x
                         | _ \<Rightarrow> if truthy (get parsed ''wouldPass'') then 85 else 40)
            in Inr \<lparr> rr_score = score,
                     rr_error = (if truthy (get parsed ''error'') then get parsed ''error''
                                 else None) \<rparr>)"

definition runtimeValidation :: "completion \<Rightarrow> runtime_result" where
  "runtimeValidation reply =
     (case runtimeValidation_try reply of
        Inr r \<Rightarrow> r
      | Inl error \<Rightarrow> \<lparr> rr_score = 50, rr_error = None \<rparr>)"

record ValidationResult =
  staticScore :: int
  runtimeScore :: real
  staticIssues :: "string list"
  runtimeError :: "json option"
  passed :: bool

text \<open>\<open>reply\<close> is the outcome of the model call that the runtime validation makes.\<close>

definition validateCode ::
  "(regex \<Rightarrow> string \<Rightarrow> bool) \<Rightarrow> completion \<Rightarrow> string \<Rightarrow> string \<Rightarrow> ValidationResult"
where
  "validateCode test reply code language =
     (let staticResult = staticAnalysis test code language;
          runtimeResult = runtimeValidation reply
      in \<lparr> staticScore = sr_score staticResult,
           runtimeScore = rr_score runtimeResult,
           staticIssues = sr_issues staticResult,
           runtimeError = rr_error runtimeResult,
           passed = (sr_score staticResult \<ge> 50 \<and> rr_score runtimeResult \<ge> 50) \<rparr>)"

section \<open>Code generation (codeGenerationService.ts)\<close>

datatype role = primary | alternative

record CodeCandidate =
  c_code :: string
  c_model :: string
  c_role :: role
  c_generatedAt :: int

record GenerationResult =
  g_candidates :: "CodeCandidate list"
  g_errors :: "string list"

text \<open>
  One outcome of \<^verbatim>\<open>Promise.allSettled\<close>: the text of a fulfilled call, or the
  \<^verbatim>\<open>message\<close> of a rejected call's reason (\<open>None\<close> when the reason has none).
\<close>

datatype settled = Fulfilled string | Rejected "string option"

text \<open>A message inside a template string.\<close>

definition template :: "string option \<Rightarrow> string" where
  "template v = (case v of Some s \<Rightarrow> s | None \<Rightarrow> ''undefined'')"

text \<open>
  \<open>stripCodeFences\<close> (two regular-expression replacements and a trim) is the parameter
  \<open>strip\<close>; \<open>clock k\<close> is what the \<open>k\<close>-th \<^verbatim>\<open>new Date()\<close> of the call reads.
\<close>

definition generateCode ::
  "(string \<Rightarrow> string) \<Rightarrow> (nat \<Rightarrow> int) \<Rightarrow> settled \<Rightarrow> settled \<Rightarrow> js_error + GenerationResult"
where
  "generateCode strip clock primaryResult altResult =
     (let (candidates1, errors1) =
            (case primaryResult of
               Fulfilled v \<Rightarrow>
                 ([\<lparr> c_code = strip v, c_model = m_primaryCode (models ENGINE_CONFIG),
                      c_role = primary, c_generatedAt = clock 0 \<rparr>], [])
             | Rejected reason \<Rightarrow>
                 ([], [''Primary ('' @ m_primaryCode (models ENGINE_CONFIG) @ ''): ''
                       @ template reason]));
          (candidates2, errors2) =
            (case altResult of
               Fulfilled v \<Rightarrow>
                 (candidates1
                  @ [\<lparr> c_code = strip v, c_model = m_alternativeCode (models ENGINE_CONFIG),
                        c_role = alternative, c_generatedAt = clock (length candidates1) \<rparr>],
                  errors1)
             | Rejected reason \<Rightarrow>
                 (candidates1,
                  errors1 @ [''Alternative ('' @ m_alternativeCode (models ENGINE_CONFIG) @ ''): ''
                             @ template reason]))
      in if length candidates2 = 0
         then Inl (Error (''Both code generation models failed: '' @ join ''; '' errors2))
         else Inr \<lparr> g_candidates = candidates2, g_errors = errors2 \<rparr>)"

section \<open>Judge (judgeService.ts)\<close>

text \<open>
  The \<^verbatim>\<open>total\<close> of a score entry of the result: a value of the response, a number
  computed from the four criteria, or \<^verbatim>\<open>NaN\<close>.
\<close>

datatype js_total = Total json | TotalNaN

text \<open>
  A score entry of the result: the properties copied from the response's entry
  (\<^verbatim>\<open>...s\<close>), and its \<^verbatim>\<open>total\<close>, which overrides a copied property of that name.
\<close>

record score_entry =
  se_fields :: "(string \<times> json) list"
  se_total :: js_total

record JudgeResult =
  selectedIndex :: real
  scores :: "score_entry list"
  reasoning :: "json option"

definition flat_score :: "real \<Rightarrow> score_entry" where
  "flat_score v =
     \<lparr> se_fields = [(''correctness'', JNum v), (''security'', JNum v), (''simplicity'', JNum v),
                     (''docAdherence'', JNum v)],
       se_total = Total (JNum v) \<rparr>"

text \<open>The own enumerable properties that an object spread copies.\<close>

fun spread :: "json \<Rightarrow> (string \<times> json) list" where
  "spread (JObj kvs) = kvs"
| "spread (JArr xs) = zip (map show_nat [0..<length xs]) xs"
| "spread (JStr s) = zip (map show_nat [0..<length s]) (map (\<lambda>c. JStr [c]) s)"
| "spread _ = []"

text \<open>
  \<^verbatim>\<open>Math.round((a + b + c + d) / 4)\<close> on the properties of a response entry.
  When every operand is \<^verbatim>\<open>undefined\<close>, \<^verbatim>\<open>null\<close>, a boolean or a number, \<^verbatim>\<open>+\<close> adds
  numbers (\<^verbatim>\<open>undefined\<close> is \<^verbatim>\<open>NaN\<close>, \<^verbatim>\<open>null\<close> is 0, \<^verbatim>\<open>true\<close> is 1). With a
  string, an array or an object among them \<^verbatim>\<open>+\<close> concatenates strings and may throw;
  that case is the parameter \<open>coerce\<close>.
\<close>

datatype jsnumber = Number real | NaN

fun toNumber :: "json option \<Rightarrow> jsnumber option" where
  "toNumber None = Some NaN"
| "toNumber (Some JNull) = Some (Number 0)"
| "toNumber (Some (JBool b)) = Some (Number (if b then 1 else 0))"
| "toNumber (Some (JNum x)) = Some (Number x)"
| "toNumber (Some (JStr s)) = None"
| "toNumber (Some (JArr xs)) = None"
| "toNumber (Some (JObj kvs)) = None"

fun plus_number :: "jsnumber \<Rightarrow> jsnumber \<Rightarrow> jsnumber" where
  "plus_number (Number a) (Number b) = Number (a + b)"
| "plus_number _ _ = NaN"

type_synonym coercion =
  "json option \<Rightarrow> json option \<Rightarrow> json option \<Rightarrow> json option \<Rightarrow> js_error + js_total"

definition rounded_mean ::
  "coercion \<Rightarrow> json option \<Rightarrow> json option \<Rightarrow> json option \<Rightarrow> json option \<Rightarrow> js_error + js_total"
where
  "rounded_mean coerce a b c d =
     (case (toNumber a, toNumber b, toNumber c, toNumber d) of
        (Some x, Some y, Some z, Some w) \<Rightarrow>
          (case plus_number (plus_number (plus_number x y) z) w of
             Number t \<Rightarrow> Inr (Total (JNum (real_of_int (Math_round (t / 4)))))
           | NaN \<Rightarrow> Inr TotalNaN)
      | _ \<Rightarrow> coerce a b c d)"

text \<open>The function mapped over \<^verbatim>\<open>parsed.scores\<close>; reading \<^verbatim>\<open>s.total\<close> of \<^verbatim>\<open>null\<close> throws.\<close>

definition score_of :: "coercion \<Rightarrow> json \<Rightarrow> js_error + score_entry" where
  "score_of coerce s =
     (if s = JNull then Inl (TypeError ''Cannot read properties of null'')
      else
        case (case get s ''total'' of
                Some t \<Rightarrow>
                  if truthy (Some t) then Inr (Total t)
                  else rounded_mean coerce (get s ''correctness'') (get s ''security'')
                         (get s ''simplicity'') (get s ''docAdherence'')
              | None \<Rightarrow>
                  rounded_mean coerce (get s ''correctness'') (get s ''security'')
                    (get s ''simplicity'') (get s ''docAdherence'')) of
          Inl e \<Rightarrow> Inl e
        | Inr t \<Rightarrow> Inr \<lparr> se_fields = spread s, se_total = t \<rparr>)"

fun map_throwing :: "('a \<Rightarrow> js_error + 'b) \<Rightarrow> 'a list \<Rightarrow> js_error + 'b list" where
  "map_throwing f [] = Inr []"
| "map_throwing f (x # xs) =
     (case f x of
        Inl e \<Rightarrow> Inl e
      | Inr y \<Rightarrow> (case map_throwing f xs of Inl e \<Rightarrow> Inl e | Inr ys \<Rightarrow> Inr (y # ys)))"

text \<open>The body of the \<^verbatim>\<open>try\<close> block of \<^verbatim>\<open>judgeCode\<close>, from the parsed response.\<close>

definition judge_try :: "coercion \<Rightarrow> CodeCandidate list \<Rightarrow> json \<Rightarrow> js_error + JudgeResult" where
  "judge_try coerce candidates parsed =
     (if parsed = JNull then Inl (TypeError ''Cannot read properties of null'')
      else
        case (get parsed ''selectedIndex'', get parsed ''scores'') of
          (Some (JNum i), Some (JArr ss)) \<Rightarrow>
            (case map_throwing (score_of coerce) ss of
               Inl e \<Rightarrow> Inl e
             | Inr entries \<Rightarrow>
                 Inr \<lparr> selectedIndex = max 0 (min i (real (length candidates) - 1)),
                       scores = entries,
                       reasoning = get parsed ''reasoning'' \<rparr>)
        | _ \<Rightarrow> Inl (Error ''Invalid judge response structure''))"

definition judge_fallback :: "CodeCandidate list \<Rightarrow> JudgeResult" where
  "judge_fallback candidates =
     \<lparr> selectedIndex = 0,
       scores = map (\<lambda>c. flat_score 70) candidates,
       reasoning =
         Some (JStr ''Judge response could not be parsed. Defaulting to primary candidate.'') \<rparr>"

text \<open>
  \<open>reply\<close> is the outcome of the model call, which stands before the \<^verbatim>\<open>try\<close>
  block: what the call throws, \<open>judgeCode\<close> throws.
\<close>

definition judgeCode :: "coercion \<Rightarrow> CodeCandidate list \<Rightarrow> completion \<Rightarrow> js_error + JudgeResult" where
  "judgeCode coerce candidates reply =
     (if length candidates = 1
      then Inr \<lparr> selectedIndex = 0,
                 scores = [flat_score 75],
                 reasoning = Some (JStr (''Only one candidate was generated. ''
                                         @ ''Scored based on general quality assessment.'')) \<rparr>
      else
        case reply of
          Throws m \<Rightarrow> Inl (Error m)
        | Unparseable raw \<Rightarrow> Inr (judge_fallback candidates)
        | Parses parsed \<Rightarrow>
            (case judge_try coerce candidates parsed of
               Inr r \<Rightarrow> Inr r
             | Inl error \<Rightarrow> Inr (judge_fallback candidates)))"

text \<open>
  A malformed judge response: a text that is not JSON, or a value without a numeric
  \<^verbatim>\<open>selectedIndex\<close> or without an array \<^verbatim>\<open>scores\<close>.
\<close>

definition malformed :: "completion \<Rightarrow> bool" where
  "malformed reply =
     (case reply of
        Throws m \<Rightarrow> False
      | Unparseable raw \<Rightarrow> True
      | Parses parsed \<Rightarrow>
          (case get parsed ''selectedIndex'' of Some (JNum i) \<Rightarrow> False | _ \<Rightarrow> True)
          \<or> (case get parsed ''scores'' of Some (JArr ss) \<Rightarrow> False | _ \<Rightarrow> True))"

section \<open>Model gateway (azureClient.ts)\<close>

text \<open>
  What a call of the client library throws: the HTTP \<^verbatim>\<open>status\<close> and the network
  \<^verbatim>\<open>code\<close> where the error has them, and its message.
\<close>

record api_error =
  e_status :: "nat option"
  e_code :: "string option"
  e_message :: string

definition isRetryable :: "api_error \<Rightarrow> bool" where
  "isRetryable error =
     (e_status error = Some 429 \<or> e_status error = Some 500 \<or> e_status error = Some 503
      \<or> e_code error = Some ''ECONNRESET'' \<or> e_code error = Some ''ETIMEDOUT'')"

definition backoff :: "retry_config \<Rightarrow> nat \<Rightarrow> nat" where
  "backoff cfg attempt = min (baseDelayMs cfg * 2 ^ (attempt - 1)) (maxDelayMs cfg)"

text \<open>
  A run of a gateway function: what it returns or throws, the delays it slept in
  order, and the number of calls of the client library it made.
\<close>

record 'a gateway_run =
  outcome :: "js_error + 'a"
  slept :: "nat list"
  attempts :: nat

text \<open>
  The \<^verbatim>\<open>try\<close> block of one attempt of \<open>chatCompletion\<close>, given what the library call
  does: it throws, or it returns a response whose trimmed first message content is
  \<open>Some text\<close> (\<open>None\<close>: the response has none). An empty content is thrown as an
  error without status or code.
\<close>

definition chat_attempt :: "api_error + string option \<Rightarrow> api_error + string" where
  "chat_attempt response =
     (case response of
        Inl error \<Rightarrow> Inl error
      | Inr content \<Rightarrow>
          (case content of
             None \<Rightarrow> Inl \<lparr> e_status = None, e_code = None,
                           e_message = ''Empty response from Azure OpenAI'' \<rparr>
           | Some text \<Rightarrow>
               if text = []
               then Inl \<lparr> e_status = None, e_code = None,
                          e_message = ''Empty response from Azure OpenAI'' \<rparr>
               else Inr text))"

text \<open>The retry loop; \<open>api k\<close> is what the library call of attempt \<open>k\<close> does.\<close>

function chat_loop ::
  "retry_config \<Rightarrow> (nat \<Rightarrow> api_error + string option) \<Rightarrow> string \<Rightarrow> nat \<Rightarrow> nat list
   \<Rightarrow> string gateway_run"
where
  "chat_loop cfg api model attempt delays =
     (if attempt \<le> maxAttempts cfg then
        (case chat_attempt (api attempt) of
           Inr content \<Rightarrow> \<lparr> outcome = Inr content, slept = delays, attempts = attempt \<rparr>
         | Inl error \<Rightarrow>
             if attempt = maxAttempts cfg \<or> \<not> isRetryable error
             then \<lparr> outcome = Inl (Error (''Azure API error ('' @ model @ ''): ''
                                          @ e_message error)),
                    slept = delays, attempts = attempt \<rparr>
             else chat_loop cfg api model (attempt + 1) (delays @ [backoff cfg attempt]))
      else \<lparr> outcome = Inl (Error (''Azure API failed after '' @ show_nat (maxAttempts cfg)
                                   @ '' attempts'')),
             slept = delays, attempts = attempt - 1 \<rparr>)"
  by pat_completeness auto
termination
  by (relation "measure (\<lambda>(cfg, api, model, attempt, delays). maxAttempts cfg + 1 - attempt)") auto

declare chat_loop.simps [simp del]

definition chatCompletion ::
  "(nat \<Rightarrow> api_error + string option) \<Rightarrow> string \<Rightarrow> string gateway_run"
where
  "chatCompletion api model = chat_loop (retry ENGINE_CONFIG) api model 1 []"

function embedding_loop ::
  "retry_config \<Rightarrow> (nat \<Rightarrow> api_error + real list) \<Rightarrow> nat \<Rightarrow> nat list
   \<Rightarrow> (real list) gateway_run"
where
  "embedding_loop cfg api attempt delays =
     (if attempt \<le> maxAttempts cfg then
        (case api attempt of
           Inr embedding \<Rightarrow> \<lparr> outcome = Inr embedding, slept = delays, attempts = attempt \<rparr>
         | Inl error \<Rightarrow>
             if attempt = maxAttempts cfg
             then \<lparr> outcome = Inl (Error (''Embedding API error: '' @ e_message error)),
                    slept = delays, attempts = attempt \<rparr>
             else embedding_loop cfg api (attempt + 1) (delays @ [backoff cfg attempt]))
      else \<lparr> outcome = Inl (Error ''Embedding failed after retries''),
             slept = delays, attempts = attempt - 1 \<rparr>)"
  by pat_completeness auto
termination
  by (relation "measure (\<lambda>(cfg, api, attempt, delays). maxAttempts cfg + 1 - attempt)") auto

declare embedding_loop.simps [simp del]

definition createEmbedding :: "(nat \<Rightarrow> api_error + real list) \<Rightarrow> (real list) gateway_run" where
  "createEmbedding api = embedding_loop (retry ENGINE_CONFIG) api 1 []"

section \<open>Document chunks and retrieval (DocChunk.ts, embeddingService.ts)\<close>

text \<open>
  The chunk collection is the list of its documents in insertion order. The hash
  \<open>sha256\<close> and the embedding call \<open>embedText\<close> (what \<open>createEmbedding\<close> returns or
  throws for a text) are parameters.
\<close>

record DocChunk =
  dc_docId :: string
  dc_url :: string
  dc_urlHash :: string
  dc_version :: string
  dc_chunkIndex :: nat
  dc_text :: string
  dc_embedding :: "real list"
  dc_tokenCount :: nat

record chunk_query =
  q_docId :: "string option"
  q_urlHash :: "string option"
  q_version :: "string option"

text \<open>
  \<^verbatim>\<open>DocChunk.find(query).sort({ chunkIndex: 1 })\<close>: the chunks that agree with every field
  the query has, by ascending chunk index (chunks of equal index keep their order).
\<close>

definition matches :: "chunk_query \<Rightarrow> DocChunk \<Rightarrow> bool" where
  "matches q c =
     ((case q_docId q of None \<Rightarrow> True | Some d \<Rightarrow> dc_docId c = d)
      \<and> (case q_urlHash q of None \<Rightarrow> True | Some h \<Rightarrow> dc_urlHash c = h)
      \<and> (case q_version q of None \<Rightarrow> True | Some v \<Rightarrow> dc_version c = v))"

definition find_by_index :: "DocChunk list \<Rightarrow> chunk_query \<Rightarrow> DocChunk list" where
  "find_by_index store q = sort_key dc_chunkIndex (filter (matches q) store)"

text \<open>\<open>cosineSimilarity\<close> of azureClient.ts.\<close>

definition cosineSimilarity :: "real list \<Rightarrow> real list \<Rightarrow> real" where
  "cosineSimilarity a b =
     (if length a \<noteq> length b then 0
      else
        let dot = sum_list (map2 (*) a b);
            magA = sum_list (map (\<lambda>x. x * x) a);
            magB = sum_list (map (\<lambda>x. x * x) b);
            denom = sqrt magA * sqrt magB
        in if denom = 0 then 0 else dot / denom)"

text \<open>
  The options of \<open>retrieveRelevantDocs\<close> with their defaults; \<open>given\<close> is the truth value
  of an optional string (\<^verbatim>\<open>undefined\<close> and the empty string are false).
\<close>

record retrieve_options =
  o_docUrl :: "string option"
  o_docId :: "string option"
  o_version :: "string option"
  o_maxChunks :: nat
  o_similarityThreshold :: real

definition default_options :: retrieve_options where
  "default_options =
     \<lparr> o_docUrl = None, o_docId = None, o_version = None, o_maxChunks = 5,
       o_similarityThreshold = 4 / 10 \<rparr>"

fun given :: "string option \<Rightarrow> bool" where
  "given None = False"
| "given (Some s) = (s \<noteq> [])"

text \<open>
  The result: the context and the similarity, which is \<^verbatim>\<open>NaN\<close> when the mean of no
  scores is taken (\<^verbatim>\<open>0 / 0\<close>).
\<close>

record retrieval =
  r_context :: string
  r_similarity :: jsnumber

definition separator :: string where
  "separator = [CHR 0x0A, CHR 0x0A] @ ''---'' @ [CHR 0x0A, CHR 0x0A]"

definition average :: "real list \<Rightarrow> jsnumber" where
  "average xs = (if xs = [] then NaN else Number (sum_list xs / real (length xs)))"

text \<open>
  \<^verbatim>\<open>sort((a, b) => b.score - a.score)\<close> on pairs of text and score: descending by score,
  equal scores in their order.
\<close>

definition by_score_desc :: "(string \<times> real) list \<Rightarrow> (string \<times> real) list" where
  "by_score_desc cs = sort_key (\<lambda>c. - snd c) cs"

text \<open>
  \<^verbatim>\<open>text.split(/\n\n+/)\<close>: the pieces between the runs of two or more line feeds;
  \<open>piece\<close> is the piece read so far.
\<close>

function split_blank_lines :: "string \<Rightarrow> string \<Rightarrow> string list" where
  "split_blank_lines piece [] = [piece]"
| "split_blank_lines piece [c] = [piece @ [c]]"
| "split_blank_lines piece (c # d # cs) =
     (if c = CHR 0x0A \<and> d = CHR 0x0A
      then piece # split_blank_lines [] (dropWhile (\<lambda>x. x = CHR 0x0A) cs)
      else split_blank_lines (piece @ [c]) (d # cs))"
  by pat_completeness auto
termination
  by (relation "measure (\<lambda>(piece, s). length s)")
     (auto simp: le_imp_less_Suc length_dropWhile_le less_Suc_eq_le le_SucI)

text \<open>
  \<open>splitIntoChunks\<close>: its loop over the paragraphs, on the pair of \<open>chunks\<close> and
  \<open>current\<close>, and the final push.
\<close>

fun chunk_paragraphs :: "nat \<Rightarrow> string list \<Rightarrow> string list \<times> string \<Rightarrow> string list \<times> string" where
  "chunk_paragraphs maxLen [] acc = acc"
| "chunk_paragraphs maxLen (para # paras) (chunks, current) =
     chunk_paragraphs maxLen paras
       (if length current + length para > maxLen \<and> length current > 0
        then (chunks @ [trim current], para)
        else (chunks, current @ (if current = [] then [] else [CHR 0x0A, CHR 0x0A]) @ para))"

definition splitIntoChunks :: "string \<Rightarrow> nat \<Rightarrow> string list" where
  "splitIntoChunks text maxLen =
     (let paragraphs = split_blank_lines [] text;
          (chunks, current) = chunk_paragraphs maxLen paragraphs ([], [])
      in if trim current = [] then chunks else chunks @ [trim current])"

text \<open>
  The body of the \<^verbatim>\<open>try\<close> block of \<open>retrieveRelevantDocs\<close>, over the chunk collection
  \<open>store\<close>: the cached path when the query finds chunks, else the in-memory path.
\<close>

definition retrieve_try ::
  "(string \<Rightarrow> string) \<Rightarrow> (string \<Rightarrow> js_error + real list) \<Rightarrow> DocChunk list \<Rightarrow> string \<Rightarrow> string
   \<Rightarrow> retrieve_options \<Rightarrow> js_error + retrieval"
where
  "retrieve_try sha256 embedText store taskDescription docContent options =
     (let maxChunks = o_maxChunks options;
          similarityThreshold = o_similarityThreshold options;
          cachedChunks =
            (if given (o_docUrl options) \<or> given (o_docId options)
             then find_by_index store
                    \<lparr> q_docId = (if given (o_docId options) then o_docId options else None),
                      q_urlHash =
                        (if given (o_docId options) then None
                         else map_option (\<lambda>u. sha256 (trim (toLowerCase u))) (o_docUrl options)),
                      q_version = (if given (o_version options) then o_version options else None) \<rparr>
             else [])
      in
        if cachedChunks \<noteq> [] then
          (case embedText taskDescription of
             Inl e \<Rightarrow> Inl e
           | Inr taskEmbedding \<Rightarrow>
               let scored =
                     take maxChunks
                       (by_score_desc
                          (filter (\<lambda>c. snd c \<ge> similarityThreshold)
                             (map (\<lambda>chunk. (dc_text chunk,
                                             cosineSimilarity taskEmbedding (dc_embedding chunk)))
                                (filter (\<lambda>c. dc_embedding c \<noteq> []) cachedChunks))))
               in if scored \<noteq> []
                  then Inr \<lparr> r_context = join separator (map fst scored),
                             r_similarity = average (map snd scored) \<rparr>
                  else
                    let fallbackChunks = take maxChunks cachedChunks
                    in Inr \<lparr> r_context = join separator (map dc_text fallbackChunks),
                             r_similarity = Number (5 / 10) \<rparr>)
        else if docContent = [] \<or> length (trim docContent) < 50 then
          Inr \<lparr> r_context =
                  ''Documentation URL: ''
                  @ (if given (o_docUrl options) then the (o_docUrl options) else ''N/A'')
                  @ [CHR 0x0A] @ ''Please implement based on standard ''
                  @ (if given (o_docUrl options) then ''the provided'' else [])
                  @ '' documentation and best practices.'',
                r_similarity = Number (3 / 10) \<rparr>
        else
          let chunks = splitIntoChunks docContent 500
          in if length chunks \<le> 2 then Inr \<lparr> r_context = docContent, r_similarity = Number 1 \<rparr>
             else
               (case embedText taskDescription of
                  Inl e \<Rightarrow> Inl e
                | Inr taskEmbedding \<Rightarrow>
                    let scoredChunks =
                          by_score_desc
                            (map (\<lambda>chunk. case embedText chunk of
                                             Inr chunkEmbedding \<Rightarrow>
                                               (chunk, cosineSimilarity taskEmbedding chunkEmbedding)
                                           | Inl e \<Rightarrow> (chunk, 0))
                               chunks);
                        topChunks =
                          take maxChunks (filter (\<lambda>c. snd c \<ge> similarityThreshold) scoredChunks);
                        selected = (if topChunks \<noteq> [] then topChunks
                                    else take maxChunks scoredChunks)
                    in Inr \<lparr> r_context = join separator (map fst selected),
                             r_similarity = average (map snd selected) \<rparr>))"

text \<open>
  Whatever the block throws, the \<^verbatim>\<open>catch\<close> returns the whole document with similarity 0.5.
\<close>

definition retrieveRelevantDocs ::
  "(string \<Rightarrow> string) \<Rightarrow> (string \<Rightarrow> js_error + real list) \<Rightarrow> DocChunk list \<Rightarrow> string \<Rightarrow> string
   \<Rightarrow> retrieve_options \<Rightarrow> retrieval"
where
  "retrieveRelevantDocs sha256 embedText store taskDescription docContent options =
     (case retrieve_try sha256 embedText store taskDescription docContent options of
        Inr r \<Rightarrow> r
      | Inl error \<Rightarrow> \<lparr> r_context = docContent, r_similarity = Number (5 / 10) \<rparr>)"

text \<open>A stored chunk of the document \<open>d\<close>, for the examples.\<close>

definition chunk_at :: "nat \<Rightarrow> string \<Rightarrow> real list \<Rightarrow> DocChunk" where
  "chunk_at i t e =
     \<lparr> dc_docId = ''d'', dc_url = ''u'', dc_urlHash = ''h'', dc_version = ''latest'',
       dc_chunkIndex = i, dc_text = t, dc_embedding = e, dc_tokenCount = 1 \<rparr>"

section \<open>Document ingestion (documentIngestionService.ts)\<close>

text \<open>
  \<^verbatim>\<open>Math.ceil(text.length / 4)\<close>.
\<close>

definition estimateTokens :: "string \<Rightarrow> nat" where
  "estimateTokens text = (length text + 3) div 4"

text \<open>
  \<^verbatim>\<open>para.split(/(?<=[.!?])\s+/)\<close>: the pieces between the runs of white space that
  follow a full stop, an exclamation mark or a question mark. \<open>prev\<close> is the character
  before the rest, \<open>piece\<close> the piece read so far.
\<close>

function split_sentences :: "char option \<Rightarrow> string \<Rightarrow> string \<Rightarrow> string list" where
  "split_sentences prev piece [] = [piece]"
| "split_sentences prev piece (c # cs) =
     (if is_space c \<and> (prev = Some CHR ''.'' \<or> prev = Some CHR ''!'' \<or> prev = Some CHR ''?'')
      then piece # split_sentences (Some c) [] (dropWhile is_space cs)
      else split_sentences (Some c) (piece @ [c]) cs)"
  by pat_completeness auto
termination
  by (relation "measure (\<lambda>(prev, piece, s). length s)")
     (auto simp: le_imp_less_Suc length_dropWhile_le)

text \<open>
  The body of the loop over the sentences of an oversized paragraph, on the pair of
  \<open>chunks\<close> and \<open>sentChunk\<close>.
\<close>

definition sentence_step :: "nat \<Rightarrow> string \<Rightarrow> string list \<times> string \<Rightarrow> string list \<times> string" where
  "sentence_step maxTokens sentence acc =
     (case acc of (chunks, sentChunk) \<Rightarrow>
        let sentCombined = (if sentChunk = [] then sentence else sentChunk @ '' '' @ sentence)
        in if estimateTokens sentCombined > maxTokens \<and> sentChunk \<noteq> []
           then (chunks @ [trim sentChunk], sentence)
           else (chunks, sentCombined))"

fun pack_sentences :: "nat \<Rightarrow> string list \<Rightarrow> string list \<times> string \<Rightarrow> string list \<times> string" where
  "pack_sentences maxTokens [] acc = acc"
| "pack_sentences maxTokens (sentence # rest) acc =
     pack_sentences maxTokens rest (sentence_step maxTokens sentence acc)"

text \<open>
  The body of the loop over the paragraphs, on the pair of \<open>chunks\<close> and \<open>current\<close>.
\<close>

definition paragraph_step :: "nat \<Rightarrow> string \<Rightarrow> string list \<times> string \<Rightarrow> string list \<times> string" where
  "paragraph_step maxTokens para acc =
     (case acc of (chunks, current) \<Rightarrow>
        let combined = (if current = [] then para else current @ [CHR 0x0A, CHR 0x0A] @ para);
            tokens = estimateTokens combined
        in if tokens > maxTokens \<and> current \<noteq> [] then (chunks @ [trim current], para)
           else if tokens > maxTokens \<and> current = [] then
             (case pack_sentences maxTokens (split_sentences None [] para) (chunks, []) of
                (chunks', sentChunk) \<Rightarrow>
                  (chunks', if trim sentChunk = [] then current else sentChunk))
           else (chunks, combined))"

fun pack_paragraphs :: "nat \<Rightarrow> string list \<Rightarrow> string list \<times> string \<Rightarrow> string list \<times> string" where
  "pack_paragraphs maxTokens [] acc = acc"
| "pack_paragraphs maxTokens (para # rest) acc =
     pack_paragraphs maxTokens rest (paragraph_step maxTokens para acc)"

text \<open>
  \<open>chunkContent\<close>; the paragraphs are the pieces of \<^verbatim>\<open>text.split(/\n\n+/)\<close>. The
  test \<^verbatim>\<open>estimateTokens(current) >= minTokens / 2\<close> is written without the division.
\<close>

definition chunkContent :: "string \<Rightarrow> nat \<Rightarrow> nat \<Rightarrow> string list" where
  "chunkContent text minTokens maxTokens =
     (let (chunks, current) = pack_paragraphs maxTokens (split_blank_lines [] text) ([], [])
      in if trim current \<noteq> [] \<and> 2 * estimateTokens current \<ge> minTokens
         then chunks @ [trim current]
         else if trim current \<noteq> [] \<and> chunks \<noteq> []
         then butlast chunks @ [last chunks @ [CHR 0x0A, CHR 0x0A] @ trim current]
         else if trim current \<noteq> [] then chunks @ [trim current]
         else chunks)"

text \<open>
  The accumulator of a chunking loop holds text: a chunk has been pushed, or the
  pending text is not blank.
\<close>

definition holding :: "string list \<times> string \<Rightarrow> bool" where
  "holding acc = (fst acc \<noteq> [] \<or> \<not> list_all is_space (snd acc))"

record IngestionResult =
  i_docId :: string
  i_url :: string
  i_urlHash :: string
  i_version :: string
  i_chunkCount :: nat
  i_cached :: bool

text \<open>
  What ingestion calls outside itself: the hash, the fetch of a URL with the
  extraction of its text (\<open>fetchContent\<close>), the version detection (three regular
  expressions), the UUID generator and the embedding call. The \<open>k\<close>-th fetch and the
  \<open>k\<close>-th embedding call may each answer differently.
\<close>

record ingest_env =
  env_sha256 :: "string \<Rightarrow> string"
  env_fetchContent :: "nat \<Rightarrow> string \<Rightarrow> js_error + string"
  env_detectVersion :: "string \<Rightarrow> string \<Rightarrow> string"
  env_randomUUID :: "nat \<Rightarrow> string"
  env_createEmbedding :: "nat \<Rightarrow> string \<Rightarrow> js_error + real list"

text \<open>
  The state ingestion works on: the chunk collection, and a record of the URLs fetched,
  the texts sent to the embedding model and the number of UUIDs drawn so far.
\<close>

record world =
  w_chunks :: "DocChunk list"
  w_fetches :: "string list"
  w_embeddings :: "string list"
  w_uuids :: nat

text \<open>
  \<^verbatim>\<open>DocChunk.create\<close> appends a document; the schema's \<^verbatim>\<open>required\<close> strings must
  not be empty.
\<close>

definition DocChunk_create :: "DocChunk \<Rightarrow> DocChunk list \<Rightarrow> js_error + DocChunk list" where
  "DocChunk_create c stored =
     (if dc_docId c = [] \<or> dc_url c = [] \<or> dc_urlHash c = [] \<or> dc_text c = []
      then Inl (Error ''DocChunk validation failed'')
      else Inr (stored @ [c]))"

definition hashUrl :: "ingest_env \<Rightarrow> string \<Rightarrow> string" where
  "hashUrl env url = env_sha256 env (trim (toLowerCase url))"

definition countDocuments :: "string \<Rightarrow> DocChunk list \<Rightarrow> nat" where
  "countDocuments urlHash stored = length (filter (\<lambda>c. dc_urlHash c = urlHash) stored)"

definition findOne :: "string \<Rightarrow> DocChunk list \<Rightarrow> DocChunk option" where
  "findOne urlHash stored = List.find (\<lambda>c. dc_urlHash c = urlHash) stored"

definition deleteMany :: "string \<Rightarrow> DocChunk list \<Rightarrow> DocChunk list" where
  "deleteMany urlHash stored = filter (\<lambda>c. dc_urlHash c \<noteq> urlHash) stored"

text \<open>
  The loop that embeds and stores the chunks, from index \<open>i\<close>. A failed embedding
  stores the chunk with an empty embedding; a failed \<^verbatim>\<open>create\<close> inside the
  \<^verbatim>\<open>try\<close> block is tried again in the \<^verbatim>\<open>catch\<close> block, and what that throws,
  ingestion throws (\<open>Some error\<close>).
\<close>

fun store_chunks ::
  "ingest_env \<Rightarrow> string \<Rightarrow> string \<Rightarrow> string \<Rightarrow> string \<Rightarrow> nat \<Rightarrow> string list \<Rightarrow> world
   \<Rightarrow> js_error option \<times> world"
where
  "store_chunks env docId url urlHash version i [] w = (None, w)"
| "store_chunks env docId url urlHash version i (chunk # rest) w =
     (let doc = \<lparr> dc_docId = docId, dc_url = url, dc_urlHash = urlHash, dc_version = version,
                   dc_chunkIndex = i, dc_text = chunk, dc_embedding = [],
                   dc_tokenCount = estimateTokens chunk \<rparr>;
          w1 = w \<lparr> w_embeddings := w_embeddings w @ [chunk] \<rparr>;
          created =
            (case env_createEmbedding env (length (w_embeddings w)) chunk of
               Inr embedding \<Rightarrow>
                 (case DocChunk_create (doc \<lparr> dc_embedding := embedding \<rparr>) (w_chunks w1) of
                    Inr stored \<Rightarrow> Inr stored
                  | Inl error \<Rightarrow> DocChunk_create doc (w_chunks w1))
             | Inl error \<Rightarrow> DocChunk_create doc (w_chunks w1))
      in case created of
           Inl error \<Rightarrow> (Some error, w1)
         | Inr stored \<Rightarrow>
             store_chunks env docId url urlHash version (i + 1) rest (w1 \<lparr> w_chunks := stored \<rparr>))"

text \<open>
  \<open>ingestDocument\<close> after the cache check: fetch, length check, chunk, embed, store.
\<close>

definition ingest_fresh ::
  "ingest_env \<Rightarrow> string \<Rightarrow> string \<Rightarrow> world \<Rightarrow> (js_error + IngestionResult) \<times> world"
where
  "ingest_fresh env url urlHash w =
     (let w1 = w \<lparr> w_fetches := w_fetches w @ [url] \<rparr>
      in case env_fetchContent env (length (w_fetches w)) url of
           Inl error \<Rightarrow> (Inl error, w1)
         | Inr rawContent \<Rightarrow>
             if rawContent = [] \<or> length (trim rawContent) < 50
             then (Inl (Error ''Failed to extract meaningful content from URL''), w1)
             else
               let version = env_detectVersion env url rawContent;
                   docId = env_randomUUID env (w_uuids w1);
                   w2 = w1 \<lparr> w_uuids := w_uuids w1 + 1 \<rparr>;
                   chunks = chunkContent rawContent 800 1200
               in case store_chunks env docId url urlHash version 0 chunks w2 of
                    (Some error, w3) \<Rightarrow> (Inl error, w3)
                  | (None, w3) \<Rightarrow>
                      (Inr \<lparr> i_docId = docId, i_url = url, i_urlHash = urlHash,
                             i_version = version, i_chunkCount = length chunks,
                             i_cached = False \<rparr>, w3))"

definition ingestDocument ::
  "ingest_env \<Rightarrow> string \<Rightarrow> bool \<Rightarrow> world \<Rightarrow> (js_error + IngestionResult) \<times> world"
where
  "ingestDocument env url forceRefresh w =
     (let urlHash = hashUrl env url
      in if \<not> forceRefresh then
           (let existingCount = countDocuments urlHash (w_chunks w)
            in if existingCount > 0 then
                 (let first = findOne urlHash (w_chunks w)
                  in (Inr \<lparr> i_docId = (case first of
                                          Some c \<Rightarrow> if dc_docId c = [] then urlHash else dc_docId c
                                        | None \<Rightarrow> urlHash),
                             i_url = url, i_urlHash = urlHash,
                             i_version = (case first of
                                            Some c \<Rightarrow> if dc_version c = [] then ''unknown''
                                                      else dc_version c
                                          | None \<Rightarrow> ''unknown''),
                             i_chunkCount = existingCount, i_cached = True \<rparr>, w))
               else ingest_fresh env url urlHash w)
         else ingest_fresh env url urlHash (w \<lparr> w_chunks := deleteMany urlHash (w_chunks w) \<rparr>))"

text \<open>
  An environment for the examples: every fetch returns one sentence of 52 characters,
  every embedding call succeeds.
\<close>

definition example_env :: ingest_env where
  "example_env =
     \<lparr> env_sha256 = (\<lambda>s. ''#'' @ s),
       env_fetchContent = (\<lambda>k u. Inr ''The quick brown fox jumps over the lazy dog. Twice!!''),
       env_detectVersion = (\<lambda>u c. ''latest''),
       env_randomUUID = (\<lambda>k. ''uuid-'' @ show_nat k),
       env_createEmbedding = (\<lambda>k t. Inr [1, 0]) \<rparr>"

definition empty_world :: world where
  "empty_world = \<lparr> w_chunks = [], w_fetches = [], w_embeddings = [], w_uuids = 0 \<rparr>"

section \<open>Orchestrator (runPipeline)\<close>

text \<open>
  The orchestrator is modelled relative to its collaborators: what each service call
  returns or throws is a field of \<open>services\<close>, as are the clock, the outcome of each
  persistence step and the conversion of a value that is not a number to a number. The
  model's answers may differ from call to call: \<open>svc_validateCode k\<close> is the validation
  after \<open>k\<close> repair attempts, \<open>svc_fixCode k\<close> the \<open>k\<close>-th repair. Retrieval, validation
  and the audit catch their own failures, so their calls return values.
\<close>

record EnhancedTask =
  t_title :: string
  t_description :: string
  t_keyRequirements :: "string list"
  t_suggestedApproach :: string

record SecurityFinding =
  f_severity :: string
  f_category :: string
  f_description :: string
  f_line :: "string option"
  f_recommendation :: string

record SecurityAuditResult =
  a_overallRisk :: string
  a_findings :: "SecurityFinding list"
  a_performanceNotes :: "string list"
  a_score :: real

record LineMapping =
  lm_startLine :: nat
  lm_endLine :: nat
  lm_docChunkId :: string
  lm_similarityScore :: real

record GenerateRequest =
  rq_userId :: string
  rq_taskDescription :: string
  rq_docUrl :: string
  rq_docContent :: string
  rq_language :: string
  rq_selectedTaskIndex :: "nat option"

record StageRecord =
  stage_name :: string
  stage_status :: string
  startedAt :: int
  completedAt :: "int option"
  durationMs :: "int option"

record GenerateResponse =
  rs_selectedCode :: string
  rs_language :: string
  rs_candidates :: "CodeCandidate list"
  rs_judgeResult :: JudgeResult
  rs_validationResult :: ValidationResult
  rs_securityAudit :: SecurityAuditResult
  rs_confidence :: ConfidenceResult
  rs_stages :: "StageRecord list"

datatype generation_status = pending | processing | completed | failed

record Generation =
  gen_enhancedTask :: string
  gen_docContext :: string
  gen_candidates :: "CodeCandidate list"
  gen_selectedCode :: string
  gen_judgeResult :: "JudgeResult option"
  gen_validationResult :: "ValidationResult option"
  gen_securityAudit :: "SecurityAuditResult option"
  gen_lineMappings :: "LineMapping list"
  gen_confidenceScore :: double
  gen_verificationStatus :: verification_status
  gen_stages :: "StageRecord list"
  gen_status :: generation_status
  gen_errorMessage :: "string option"

datatype persist_step = CreateGeneration | SaveCompleted | IncrementUsage | CreateHistory | SaveFailed

text \<open>
  A service invocation, for the record of calls: a validation is recorded with the code
  it validated and whether it passed, a repair with the code it was given.
\<close>

datatype call =
  CallEnhance | CallRetrieve | CallGenerate | CallJudge
| CallValidate string bool | CallFix string | CallAudit string | CallTrace string

datatype progress = StageEvent string string | CompleteEvent double verification_status | ErrorEvent string

record services =
  svc_enhanceTask :: "string \<Rightarrow> string \<Rightarrow> js_error + EnhancedTask list"
  svc_retrieveRelevantDocs :: "string \<Rightarrow> string \<Rightarrow> string \<times> real"
  svc_generateCode :: "string \<Rightarrow> string \<Rightarrow> string \<Rightarrow> js_error + GenerationResult"
  svc_judgeCode :: "CodeCandidate list \<Rightarrow> string \<Rightarrow> string \<Rightarrow> js_error + JudgeResult"
  svc_validateCode :: "nat \<Rightarrow> string \<Rightarrow> string \<Rightarrow> string \<Rightarrow> ValidationResult"
  svc_fixCode :: "nat \<Rightarrow> string \<Rightarrow> json option \<Rightarrow> string \<Rightarrow> js_error + string"
  svc_auditCode :: "string \<Rightarrow> string \<Rightarrow> SecurityAuditResult"
  svc_buildTraceMappings :: "string \<Rightarrow> string \<Rightarrow> js_error + LineMapping list"
  svc_toNumber :: "json \<Rightarrow> real"
  svc_persist :: "persist_step \<Rightarrow> js_error option"
  svc_now :: "nat \<Rightarrow> int"

text \<open>
  The state of a run: the \<open>stages\<close> array and the progress events emitted, the number of
  clock readings so far, and two records that the code does not keep and that the
  theorems speak about: the names passed to \<open>startStage\<close> and the service calls made, both
  in order.
\<close>

record run_state =
  stages :: "StageRecord list"
  emitted :: "progress list"
  ticks :: nat
  started :: "string list"
  calls :: "call list"

definition initial_state :: run_state where
  "initial_state = \<lparr> stages = [], emitted = [], ticks = 0, started = [], calls = [] \<rparr>"

record open_stage =
  os_name :: string
  os_startedAt :: int

definition startStage :: "services \<Rightarrow> string \<Rightarrow> run_state \<Rightarrow> open_stage \<times> run_state" where
  "startStage svc stageName s =
     (\<lparr> os_name = stageName, os_startedAt = svc_now svc (ticks s) \<rparr>,
      s \<lparr> ticks := ticks s + 1, started := started s @ [stageName] \<rparr>)"

definition endStage :: "services \<Rightarrow> open_stage \<Rightarrow> run_state \<Rightarrow> run_state" where
  "endStage svc stage s =
     (let finished = svc_now svc (ticks s)
      in s \<lparr> ticks := ticks s + 1,
             stages := stages s @
               [\<lparr> stage_name = os_name stage, stage_status = ''completed'',
                  startedAt = os_startedAt stage, completedAt = Some finished,
                  durationMs = Some (finished - os_startedAt stage) \<rparr>] \<rparr>)"

definition emitStage :: "string \<Rightarrow> string \<Rightarrow> run_state \<Rightarrow> run_state" where
  "emitStage event msg s = s \<lparr> emitted := emitted s @ [StageEvent event msg] \<rparr>"

definition invoke :: "call \<Rightarrow> run_state \<Rightarrow> run_state" where
  "invoke c s = s \<lparr> calls := calls s @ [c] \<rparr>"

text \<open>
  Indexing an array: \<open>nth_opt\<close> by a natural number, \<open>at_index\<close> by a JavaScript number;
  \<open>None\<close> is \<^verbatim>\<open>undefined\<close>.
\<close>

fun nth_opt :: "'a list \<Rightarrow> nat \<Rightarrow> 'a option" where
  "nth_opt [] i = None"
| "nth_opt (x # xs) 0 = Some x"
| "nth_opt (x # xs) (Suc i) = nth_opt xs i"

definition at_index :: "'a list \<Rightarrow> real \<Rightarrow> 'a option" where
  "at_index xs i = (if i = real (nat \<lfloor>i\<rfloor>) then nth_opt xs (nat \<lfloor>i\<rfloor>) else None)"

text \<open>
  The stages of the \<^verbatim>\<open>try\<close> block. A stage that throws returns \<open>Inl\<close> with the state
  at the throw.
\<close>

definition enhance_stage ::
  "services \<Rightarrow> GenerateRequest \<Rightarrow> run_state \<Rightarrow> (js_error + string) \<times> run_state"
where
  "enhance_stage svc request s0 =
     (let (enhanceStage, s1) = startStage svc ''enhancing_task'' s0;
          s2 = emitStage ''enhancing_task'' ''Enhancing your task...'' s1;
          s3 = invoke CallEnhance s2
      in case svc_enhanceTask svc (rq_taskDescription request) (rq_language request) of
           Inl error \<Rightarrow> (Inl error, s3)
         | Inr enhancedTasks \<Rightarrow>
             (case (case nth_opt enhancedTasks
                           (case rq_selectedTaskIndex request of Some i \<Rightarrow> i | None \<Rightarrow> 0) of
                      Some task \<Rightarrow> Some task
                    | None \<Rightarrow> nth_opt enhancedTasks 0) of
                None \<Rightarrow> (Inl (TypeError ''Cannot read properties of undefined''), s3)
              | Some selectedTask \<Rightarrow> (Inr (t_description selectedTask), endStage svc enhanceStage s3)))"

definition retrieve_stage ::
  "services \<Rightarrow> GenerateRequest \<Rightarrow> string \<Rightarrow> run_state \<Rightarrow> (string \<times> real) \<times> run_state"
where
  "retrieve_stage svc request enhancedDescription s0 =
     (let (ragStage, s1) = startStage svc ''retrieving_docs'' s0;
          s2 = emitStage ''retrieving_docs'' ''Retrieving documentation context...'' s1
      in if rq_docContent request \<noteq> [] \<and> length (trim (rq_docContent request)) > 0
         then (svc_retrieveRelevantDocs svc enhancedDescription (rq_docContent request),
               endStage svc ragStage (invoke CallRetrieve s2))
         else ((''Documentation URL: '' @ rq_docUrl request @ [CHR 0x0A]
                @ ''Please implement based on the standard '' @ rq_language request
                @ '' documentation and best practices.'', 5 / 10),
               endStage svc ragStage s2))"

definition generate_stage ::
  "services \<Rightarrow> GenerateRequest \<Rightarrow> string \<Rightarrow> string \<Rightarrow> run_state
   \<Rightarrow> (js_error + GenerationResult) \<times> run_state"
where
  "generate_stage svc request enhancedDescription docContext s0 =
     (let (genStage, s1) = startStage svc ''generating_code'' s0;
          s2 = emitStage ''generating_code'' ''Generating code from multiple models...'' s1;
          s3 = invoke CallGenerate s2
      in case svc_generateCode svc enhancedDescription docContext (rq_language request) of
           Inl error \<Rightarrow> (Inl error, s3)
         | Inr genResult \<Rightarrow> (Inr genResult, endStage svc genStage s3))"

definition judge_stage ::
  "services \<Rightarrow> CodeCandidate list \<Rightarrow> string \<Rightarrow> string \<Rightarrow> run_state
   \<Rightarrow> (js_error + JudgeResult) \<times> run_state"
where
  "judge_stage svc cands enhancedDescription docContext s0 =
     (let (judgeStage, s1) = startStage svc ''judging'' s0;
          s2 = emitStage ''judging'' ''Comparing and scoring solutions...'' s1;
          s3 = invoke CallJudge s2
      in case svc_judgeCode svc cands enhancedDescription docContext of
           Inl error \<Rightarrow> (Inl error, s3)
         | Inr judgeResult \<Rightarrow> (Inr judgeResult, endStage svc judgeStage s3))"

text \<open>
  \<^verbatim>\<open>candidates[selectedIndex]?.code || candidates[0].code\<close>.
\<close>

definition select_code :: "CodeCandidate list \<Rightarrow> real \<Rightarrow> js_error + string" where
  "select_code cands i =
     (case at_index cands i of
        Some c \<Rightarrow>
          if c_code c \<noteq> [] then Inr (c_code c)
          else (case nth_opt cands 0 of
                  Some c0 \<Rightarrow> Inr (c_code c0)
                | None \<Rightarrow> Inl (TypeError ''Cannot read properties of undefined''))
      | None \<Rightarrow>
          (case nth_opt cands 0 of
             Some c0 \<Rightarrow> Inr (c_code c0)
           | None \<Rightarrow> Inl (TypeError ''Cannot read properties of undefined'')))"

definition validate_stage ::
  "services \<Rightarrow> GenerateRequest \<Rightarrow> string \<Rightarrow> CodeCandidate list \<Rightarrow> JudgeResult \<Rightarrow> run_state
   \<Rightarrow> (js_error + string \<times> ValidationResult) \<times> run_state"
where
  "validate_stage svc request enhancedDescription cands judgeResult s0 =
     (let (validStage, s1) = startStage svc ''validating'' s0;
          s2 = emitStage ''validating'' ''Validating generated code...'' s1
      in case select_code cands (selectedIndex judgeResult) of
           Inl error \<Rightarrow> (Inl error, s2)
         | Inr selectedCode \<Rightarrow>
             let validationResult =
                   svc_validateCode svc 0 selectedCode (rq_language request) enhancedDescription;
                 s3 = invoke (CallValidate selectedCode (passed validationResult)) s2
             in (Inr (selectedCode, validationResult), endStage svc validStage s3))"

definition fix_stage_name :: "nat \<Rightarrow> string" where
  "fix_stage_name k = ''runtime_fix_'' @ show_nat k"

definition fix_message :: "nat \<Rightarrow> string" where
  "fix_message k = ''Fixing code (attempt '' @ show_nat k @ '')...''"

text \<open>
  The \<^verbatim>\<open>for\<close> loop of the runtime fix, from \<open>attempt\<close> with the current code and
  validation result; \<open>limit\<close> is \<open>maxFixAttempts\<close>.
\<close>

function fix_loop ::
  "services \<Rightarrow> nat \<Rightarrow> string \<Rightarrow> string \<Rightarrow> nat \<Rightarrow> string \<times> ValidationResult \<Rightarrow> run_state
   \<Rightarrow> (js_error + string \<times> ValidationResult) \<times> run_state"
where
  "fix_loop svc limit language enhancedDescription attempt (selectedCode, validationResult) s0 =
     (if attempt < limit then
        (let (fixStage, s1) = startStage svc (fix_stage_name (attempt + 1)) s0;
             s2 = emitStage ''fixing_code'' (fix_message (attempt + 1)) s1;
             s3 = invoke (CallFix selectedCode) s2
         in case svc_fixCode svc (attempt + 1) selectedCode (runtimeError validationResult)
                   language of
              Inl error \<Rightarrow> (Inl error, s3)
            | Inr fixed \<Rightarrow>
                let revalidated = svc_validateCode svc (attempt + 1) fixed language
                                    enhancedDescription;
                    s4 = invoke (CallValidate fixed (passed revalidated)) s3;
                    s5 = endStage svc fixStage s4
                in if passed revalidated then (Inr (fixed, revalidated), s5)
                   else fix_loop svc limit language enhancedDescription (attempt + 1)
                          (fixed, revalidated) s5)
      else (Inr (selectedCode, validationResult), s0))"
  by pat_completeness auto
termination
  by (relation "measure (\<lambda>(svc, limit, language, enhancedDescription, attempt, cv, s). limit - attempt)")
     auto

declare fix_loop.simps [simp del]

text \<open>
  Stage 5b: the loop runs when validation did not pass and reports a runtime error.
\<close>

definition repair ::
  "services \<Rightarrow> GenerateRequest \<Rightarrow> string \<Rightarrow> string \<times> ValidationResult \<Rightarrow> run_state
   \<Rightarrow> (js_error + string \<times> ValidationResult) \<times> run_state"
where
  "repair svc request enhancedDescription cv s =
     (if \<not> passed (snd cv) \<and> truthy (runtimeError (snd cv))
      then fix_loop svc (maxFixAttempts ENGINE_CONFIG) (rq_language request) enhancedDescription
             0 cv s
      else (Inr cv, s))"

definition audit_stage ::
  "services \<Rightarrow> GenerateRequest \<Rightarrow> string \<Rightarrow> run_state \<Rightarrow> SecurityAuditResult \<times> run_state"
where
  "audit_stage svc request selectedCode s0 =
     (let (secStage, s1) = startStage svc ''security_audit'' s0;
          s2 = emitStage ''security_audit'' ''Running security audit...'' s1;
          s3 = invoke (CallAudit selectedCode) s2
      in (svc_auditCode svc selectedCode (rq_language request), endStage svc secStage s3))"

definition trace_stage ::
  "services \<Rightarrow> GenerateRequest \<Rightarrow> string \<Rightarrow> run_state \<Rightarrow> LineMapping list \<times> run_state"
where
  "trace_stage svc request selectedCode s0 =
     (let (traceStage, s1) = startStage svc ''trace_mapping'' s0;
          s2 = emitStage ''trace_mapping'' ''Mapping code to documentation...'' s1;
          s3 = invoke (CallTrace selectedCode) s2;
          lineMappings = (case svc_buildTraceMappings svc selectedCode (rq_docUrl request) of
                            Inr mappings \<Rightarrow> mappings
                          | Inl err \<Rightarrow> [])
      in (lineMappings, endStage svc traceStage s3))"

text \<open>
  \<^verbatim>\<open>judgeResult.scores[judgeResult.selectedIndex]?.total || 70\<close>, as a number.
\<close>

definition winner_total :: "services \<Rightarrow> JudgeResult \<Rightarrow> real" where
  "winner_total svc judgeResult =
     (case at_index (scores judgeResult) (selectedIndex judgeResult) of
        None \<Rightarrow> 70
      | Some entry \<Rightarrow>
          (case se_total entry of
             TotalNaN \<Rightarrow> 70
           | Total t \<Rightarrow>
               if truthy (Some t)
               then (case t of JNum x \<Rightarrow> x | _ \<Rightarrow> svc_toNumber svc t)
               else 70))"

definition scoring_stage ::
  "services \<Rightarrow> JudgeResult \<Rightarrow> ValidationResult \<Rightarrow> real \<Rightarrow> run_state \<Rightarrow> ConfidenceResult \<times> run_state"
where
  "scoring_stage svc judgeResult validationResult docSimilarity s0 =
     (let (confStage, s1) = startStage svc ''scoring'' s0;
          s2 = emitStage ''scoring'' ''Calculating confidence score...'' s1;
          confidence = calculateConfidence (Finite (winner_total svc judgeResult))
                         (Finite (runtimeScore validationResult))
                         (Finite (real_of_int (staticScore validationResult)))
                         (Finite docSimilarity)
      in (confidence, endStage svc confStage s2))"

record pipeline_result =
  pr_enhancedDescription :: string
  pr_docContext :: string
  pr_candidates :: "CodeCandidate list"
  pr_selectedCode :: string
  pr_judgeResult :: JudgeResult
  pr_validationResult :: ValidationResult
  pr_securityAudit :: SecurityAuditResult
  pr_lineMappings :: "LineMapping list"
  pr_confidence :: ConfidenceResult

definition after_repair ::
  "services \<Rightarrow> GenerateRequest \<Rightarrow> string \<Rightarrow> string \<Rightarrow> real \<Rightarrow> CodeCandidate list \<Rightarrow> JudgeResult
   \<Rightarrow> string \<times> ValidationResult \<Rightarrow> run_state \<Rightarrow> pipeline_result \<times> run_state"
where
  "after_repair svc request enhancedDescription docContext docSimilarity cands judgeResult cv s0 =
     (let (securityAudit, s1) = audit_stage svc request (fst cv) s0;
          (lineMappings, s2) = trace_stage svc request (fst cv) s1;
          (confidence, s3) = scoring_stage svc judgeResult (snd cv) docSimilarity s2
      in (\<lparr> pr_enhancedDescription = enhancedDescription, pr_docContext = docContext,
            pr_candidates = cands, pr_selectedCode = fst cv, pr_judgeResult = judgeResult,
            pr_validationResult = snd cv, pr_securityAudit = securityAudit,
            pr_lineMappings = lineMappings, pr_confidence = confidence \<rparr>, s3))"

text \<open>
  The stages of the \<^verbatim>\<open>try\<close> block in order, up to the confidence score.
\<close>

definition run_stages ::
  "services \<Rightarrow> GenerateRequest \<Rightarrow> run_state \<Rightarrow> (js_error + pipeline_result) \<times> run_state"
where
  "run_stages svc request s0 =
     (case enhance_stage svc request s0 of
        (Inl error, s1) \<Rightarrow> (Inl error, s1)
      | (Inr enhancedDescription, s1) \<Rightarrow>
          (case retrieve_stage svc request enhancedDescription s1 of
             ((docContext, docSimilarity), s2) \<Rightarrow>
               (case generate_stage svc request enhancedDescription docContext s2 of
                  (Inl error, s3) \<Rightarrow> (Inl error, s3)
                | (Inr genResult, s3) \<Rightarrow>
                    (case judge_stage svc (g_candidates genResult) enhancedDescription docContext s3 of
                       (Inl error, s4) \<Rightarrow> (Inl error, s4)
                     | (Inr judgeResult, s4) \<Rightarrow>
                         (case validate_stage svc request enhancedDescription
                                 (g_candidates genResult) judgeResult s4 of
                            (Inl error, s5) \<Rightarrow> (Inl error, s5)
                          | (Inr cv, s5) \<Rightarrow>
                              (case repair svc request enhancedDescription cv s5 of
                                 (Inl error, s6) \<Rightarrow> (Inl error, s6)
                               | (Inr cv', s6) \<Rightarrow>
                                   (case after_repair svc request enhancedDescription docContext
                                           docSimilarity (g_candidates genResult) judgeResult
                                           cv' s6 of
                                      (result, s7) \<Rightarrow> (Inr result, s7))))))))"

definition new_generation :: Generation where
  "new_generation =
     \<lparr> gen_enhancedTask = [], gen_docContext = [], gen_candidates = [], gen_selectedCode = [],
       gen_judgeResult = None, gen_validationResult = None, gen_securityAudit = None,
       gen_lineMappings = [], gen_confidenceScore = Finite 0, gen_verificationStatus = unverified,
       gen_stages = [], gen_status = processing, gen_errorMessage = None \<rparr>"

text \<open>
  A finished run: what \<open>runPipeline\<close> returns or throws, the generation document as the
  run leaves it, the final state, the increments of the user's usage counter and the
  code of each history entry written.
\<close>

record pipeline_run =
  run_outcome :: "js_error + GenerateResponse"
  run_generation :: "Generation option"
  run_final :: run_state
  run_requestsUsed :: nat
  run_history :: "string list"

text \<open>
  The \<^verbatim>\<open>catch\<close> block.
\<close>

definition fail_run :: "services \<Rightarrow> js_error \<Rightarrow> Generation \<Rightarrow> run_state \<Rightarrow> nat \<Rightarrow> pipeline_run" where
  "fail_run svc error generation s used =
     (let failedGeneration =
            generation \<lparr> gen_status := failed, gen_errorMessage := Some (error_message error),
                         gen_stages := stages s \<rparr>
      in case svc_persist svc SaveFailed of
           Some saveError \<Rightarrow>
             \<lparr> run_outcome = Inl saveError, run_generation = Some failedGeneration,
               run_final = s, run_requestsUsed = used, run_history = [] \<rparr>
         | None \<Rightarrow>
             \<lparr> run_outcome = Inl error, run_generation = Some failedGeneration,
               run_final = s \<lparr> emitted := emitted s @ [ErrorEvent (error_message error)] \<rparr>,
               run_requestsUsed = used, run_history = [] \<rparr>)"

text \<open>
  The end of the \<^verbatim>\<open>try\<close> block: the document is filled in and saved, the usage
  counter incremented, the history entry written.
\<close>

definition finalize :: "services \<Rightarrow> GenerateRequest \<Rightarrow> pipeline_result \<Rightarrow> run_state \<Rightarrow> pipeline_run" where
  "finalize svc request result s0 =
     (let s1 = emitStage ''finalizing'' ''Saving results...'' s0;
          generation =
            new_generation
              \<lparr> gen_enhancedTask := pr_enhancedDescription result,
                gen_docContext := take 10000 (pr_docContext result),
                gen_candidates := pr_candidates result,
                gen_selectedCode := pr_selectedCode result,
                gen_judgeResult := Some (pr_judgeResult result),
                gen_validationResult := Some (pr_validationResult result),
                gen_securityAudit := Some (pr_securityAudit result),
                gen_lineMappings := pr_lineMappings result,
                gen_confidenceScore := confidenceScore (pr_confidence result),
                gen_verificationStatus := verificationStatus (pr_confidence result),
                gen_stages := stages s1,
                gen_status := completed \<rparr>
      in case svc_persist svc SaveCompleted of
           Some error \<Rightarrow> fail_run svc error generation s1 0
         | None \<Rightarrow>
             (case svc_persist svc IncrementUsage of
                Some error \<Rightarrow> fail_run svc error generation s1 0
              | None \<Rightarrow>
                  (case svc_persist svc CreateHistory of
                     Some error \<Rightarrow> fail_run svc error generation s1 1
                   | None \<Rightarrow>
                       \<lparr> run_outcome =
                           Inr \<lparr> rs_selectedCode = pr_selectedCode result,
                                 rs_language = rq_language request,
                                 rs_candidates = pr_candidates result,
                                 rs_judgeResult = pr_judgeResult result,
                                 rs_validationResult = pr_validationResult result,
                                 rs_securityAudit = pr_securityAudit result,
                                 rs_confidence = pr_confidence result,
                                 rs_stages = stages s1 \<rparr>,
                         run_generation = Some generation,
                         run_final =
                           s1 \<lparr> emitted := emitted s1 @
                                  [CompleteEvent (confidenceScore (pr_confidence result))
                                     (verificationStatus (pr_confidence result))] \<rparr>,
                         run_requestsUsed = 1,
                         run_history = [pr_selectedCode result] \<rparr>)))"

definition runPipeline :: "services \<Rightarrow> GenerateRequest \<Rightarrow> pipeline_run" where
  "runPipeline svc request =
     (case svc_persist svc CreateGeneration of
        Some error \<Rightarrow>
          \<lparr> run_outcome = Inl error, run_generation = None, run_final = initial_state,
            run_requestsUsed = 0, run_history = [] \<rparr>
      | None \<Rightarrow>
          (case run_stages svc request initial_state of
             (Inl error, s) \<Rightarrow> fail_run svc error new_generation s 0
           | (Inr result, s) \<Rightarrow> finalize svc request result s))"

subsection \<open>Reading the records of a run\<close>

text \<open>
  A stage record as \<open>endStage\<close> writes it: completed, with its completion time and the
  duration between start and completion.
\<close>

definition well_timed :: "StageRecord \<Rightarrow> bool" where
  "well_timed r =
     (stage_status r = ''completed''
      \<and> (case completedAt r of Some c \<Rightarrow> durationMs r = Some (c - startedAt r) | None \<Rightarrow> False))"

text \<open>
  Every started stage has its record; every started stage but the last has.
\<close>

definition all_recorded :: "run_state \<Rightarrow> bool" where
  "all_recorded s = (map stage_name (stages s) = started s \<and> list_all well_timed (stages s))"

definition last_unrecorded :: "run_state \<Rightarrow> bool" where
  "last_unrecorded s =
     (started s \<noteq> [] \<and> map stage_name (stages s) = butlast (started s)
      \<and> list_all well_timed (stages s))"

fun is_fix :: "call \<Rightarrow> bool" where
  "is_fix (CallFix c) = True"
| "is_fix _ = False"

fun is_validate :: "call \<Rightarrow> bool" where
  "is_validate (CallValidate c p) = True"
| "is_validate _ = False"

fun passing :: "call \<Rightarrow> bool" where
  "passing (CallValidate c p) = p"
| "passing _ = False"

definition fix_calls :: "call list \<Rightarrow> nat" where
  "fix_calls cs = length (filter is_fix cs)"

definition validate_calls :: "call list \<Rightarrow> nat" where
  "validate_calls cs = length (filter is_validate cs)"

text \<open>
  A record of repair calls in which every validation directly follows a repair (the
  last repair may stand alone: it threw).
\<close>

fun paired :: "call list \<Rightarrow> bool" where
  "paired [] = True"
| "paired [CallFix c] = True"
| "paired (CallFix c # CallValidate c' p # rest) = paired rest"
| "paired _ = False"

subsection \<open>Example services\<close>

text \<open>
  Services whose validator always fails with a runtime error and whose repair appends
  an exclamation mark; and the same with an enhancement call that throws.
\<close>

definition failing_validation :: ValidationResult where
  "failing_validation =
     \<lparr> staticScore = 100, runtimeScore = 40, staticIssues = [],
       runtimeError = Some (JStr ''boom''), passed = False \<rparr>"

definition example_services :: services where
  "example_services =
     \<lparr> svc_enhanceTask = (\<lambda>t l. Inr [\<lparr> t_title = ''T'', t_description = ''do it'',
                                           t_keyRequirements = [], t_suggestedApproach = [] \<rparr>]),
       svc_retrieveRelevantDocs = (\<lambda>t d. (d, 1)),
       svc_generateCode =
         (\<lambda>t c l. Inr \<lparr> g_candidates = [\<lparr> c_code = ''x'', c_model = ''gpt-4.1-mini'',
                                            c_role = primary, c_generatedAt = 0 \<rparr>],
                         g_errors = [] \<rparr>),
       svc_judgeCode = (\<lambda>cs t d. Inr \<lparr> selectedIndex = 0, scores = [flat_score 75],
                                        reasoning = None \<rparr>),
       svc_validateCode = (\<lambda>k c l t. failing_validation),
       svc_fixCode = (\<lambda>k c e l. Inr (c @ ''!'')),
       svc_auditCode = (\<lambda>c l. \<lparr> a_overallRisk = ''low'', a_findings = [],
                                 a_performanceNotes = [], a_score = 90 \<rparr>),
       svc_buildTraceMappings = (\<lambda>c u. Inr []),
       svc_toNumber = (\<lambda>j. 0),
       svc_persist = (\<lambda>p. None),
       svc_now = (\<lambda>k. 5 * int k) \<rparr>"

definition failing_services :: services where
  "failing_services =
     example_services \<lparr> svc_enhanceTask := (\<lambda>t l. Inl (Error ''Enhancement parsing failed'')) \<rparr>"

definition example_request :: GenerateRequest where
  "example_request =
     \<lparr> rq_userId = ''u1'', rq_taskDescription = ''list files'', rq_docUrl = ''https://d'',
       rq_docContent = ''os.listdir(path) returns the names'', rq_language = ''python'',
       rq_selectedTaskIndex = None \<rparr>"

chapter \<open>Properties\<close>

section \<open>Rounding to a double\<close>

lemma pow2_pos: "0 < pow2 e"
  by (simp add: pow2_def)

lemma pow2_add: "pow2 (a + b) = pow2 a * pow2 b"
proof -
  have "pow2 e = 2 powi e" for e
    by (simp add: pow2_def power_int_def field_simps)
  then show ?thesis
    by (simp add: power_int_add)
qed

lemma binary_exponent_cases:
  "binary_exponent n lo x = lo \<or> pow2 (binary_exponent n lo x) \<le> x"
proof (induction n arbitrary: lo)
  case 0
  show ?case by simp
next
  case (Suc n)
  show ?case
  proof (cases "pow2 (lo + 2 ^ n) \<le> x")
    case True
    with Suc [of "lo + 2 ^ n"] show ?thesis by auto
  next
    case False
    with Suc [of lo] show ?thesis by auto
  qed
qed

text \<open>The bisection finds the binary exponent: \<open>2\<^sup>e \<le> x < 2\<^sup>e\<^sup>+\<^sup>1\<close>.\<close>

lemma binary_exponent_bounds:
  "pow2 lo \<le> x \<Longrightarrow> x < pow2 (lo + 2 ^ n)
   \<Longrightarrow> pow2 (binary_exponent n lo x) \<le> x \<and> x < pow2 (binary_exponent n lo x + 1)"
proof (induction n arbitrary: lo)
  case 0
  then show ?case by simp
next
  case (Suc n)
  show ?case
  proof (cases "pow2 (lo + 2 ^ n) \<le> x")
    case True
    with Suc.prems Suc.IH [of "lo + 2 ^ n"] show ?thesis by (simp add: add.assoc)
  next
    case False
    with Suc.prems Suc.IH [of lo] show ?thesis by simp
  qed
qed

lemma round_half_even_error: "\<bar>real_of_int (round_half_even y) - y\<bar> \<le> 1 / 2"
  unfolding round_half_even_def by (auto; linarith)

lemmas double_eval =
  to_double_def eval_nat_numeral pow2_def round_half_even_def Let_def Math_round_def

text \<open>
  Known values: \<^verbatim>\<open>0.1 + 0.2\<close> is \<^verbatim>\<open>0.30000000000000004\<close>; integers above \<open>2\<^sup>5\<^sup>3\<close> are
  rounded to even significands; half of the smallest subnormal is rounded to zero; the
  overflow threshold.
\<close>

lemma to_double_examples:
  "plus_double (to_double (1 / 10)) (to_double (2 / 10)) = Finite (5404319552844596 / 2 ^ 54)"
  "to_double (- (1 / 3)) = Finite (- (6004799503160661 / 2 ^ 54))"
  "to_double (2 ^ 53 + 1) = Finite (2 ^ 53)"
  "to_double (2 ^ 53 + 3) = Finite (2 ^ 53 + 4)"
  "to_double (1 / 2 ^ 1075) = Finite 0"
  "to_double (3 / 2 ^ 1075) = Finite (1 / 2 ^ 1073)"
  "to_double (2 ^ 1024 - 2 ^ 970 - 1) = Finite (2 ^ 1024 - 2 ^ 971)"
  "to_double (2 ^ 1024 - 2 ^ 970) = PlusInfinity"
  "to_double (- (2 ^ 1024)) = MinusInfinity"
  by (simp_all add: double_eval)

text \<open>Up to 1024 in magnitude, rounding moves a value by at most \<open>2\<^sup>-\<^sup>4\<^sup>3\<close>.\<close>

lemma to_double_error:
  assumes "\<bar>x\<bar> \<le> 1024"
  shows "\<exists>y. to_double x = Finite y \<and> \<bar>y - x\<bar> \<le> 1 / 2 ^ 43"
proof -
  define e where "e = binary_exponent 11 (- 1022) \<bar>x\<bar>"
  define q where "q = e - 52"
  define y where "y = real_of_int (round_half_even (x / pow2 q)) * pow2 q"
  have "y - x = (real_of_int (round_half_even (x / pow2 q)) - x / pow2 q) * pow2 q"
    using pow2_pos [of q] by (simp add: y_def left_diff_distrib)
  then have "\<bar>y - x\<bar> = \<bar>real_of_int (round_half_even (x / pow2 q)) - x / pow2 q\<bar> * pow2 q"
    using pow2_pos [of q] by (simp add: abs_mult)
  also have "\<dots> \<le> 1 / 2 * pow2 q"
    using pow2_pos [of q] round_half_even_error [of "x / pow2 q"] by (simp add: mult_right_mono)
  finally have err: "\<bar>y - x\<bar> \<le> pow2 q / 2"
    by simp
  have "e = - 1022 \<or> pow2 e \<le> \<bar>x\<bar>"
    unfolding e_def by (rule binary_exponent_cases)
  then have "pow2 e \<le> 1024"
  proof
    assume "e = - 1022" then show ?thesis by (simp add: pow2_def)
  next
    assume "pow2 e \<le> \<bar>x\<bar>" with assms show ?thesis by simp
  qed
  moreover have "pow2 q = pow2 e / 2 ^ 52"
    unfolding q_def using pow2_add [of e "- 52"] by (simp add: pow2_def)
  ultimately have "pow2 q / 2 \<le> 1 / 2 ^ 43"
    by simp
  with err have small: "\<bar>y - x\<bar> \<le> 1 / 2 ^ 43" by simp
  moreover have "(1 :: real) / 2 ^ 43 \<le> 1" by simp
  ultimately have "\<bar>y\<bar> \<le> 1025" using assms by linarith
  then have "\<not> pow2 1024 \<le> y" "\<not> y \<le> - pow2 1024"
    by (simp_all add: pow2_def)
  then have "to_double x = Finite y"
    by (simp add: to_double_def Let_def y_def q_def e_def)
  with small show ?thesis by blast
qed

lemma times_double_error:
  assumes "\<bar>a * b\<bar> \<le> 1024"
  shows "\<exists>y. times_double (Finite a) (Finite b) = Finite y \<and> \<bar>y - a * b\<bar> \<le> 1 / 2 ^ 43"
  using to_double_error [OF assms] by simp

lemma plus_double_error:
  assumes "\<bar>a + b\<bar> \<le> 1024"
  shows "\<exists>y. plus_double (Finite a) (Finite b) = Finite y \<and> \<bar>y - (a + b)\<bar> \<le> 1 / 2 ^ 43"
  using to_double_error [OF assms] by simp

lemma Math_round_mono: "x \<le> y \<Longrightarrow> Math_round x \<le> Math_round y"
  by (simp add: Math_round_def floor_mono)

lemma Math_round_between:
  "\<bar>y - x\<bar> \<le> t \<Longrightarrow> Math_round (x - t) \<le> Math_round y \<and> Math_round y \<le> Math_round (x + t)"
  by (auto intro!: Math_round_mono)

section \<open>Confidence scoring\<close>

lemma confidenceWeights_values:
  "w_judge (confidenceWeights ENGINE_CONFIG) = Finite (3602879701896397 / 2 ^ 53)"
  "w_runtime (confidenceWeights ENGINE_CONFIG) = Finite (5404319552844595 / 2 ^ 54)"
  "w_static (confidenceWeights ENGINE_CONFIG) = Finite (3602879701896397 / 2 ^ 54)"
  "w_docSimilarity (confidenceWeights ENGINE_CONFIG) = Finite (3602879701896397 / 2 ^ 55)"
  by (simp_all add: ENGINE_CONFIG_def double_eval)

text \<open>
  The rounding of the products and sums is visible in the score: at \<open>(15, 87, 62, 0.5)\<close>
  the exact weighted sum is \<open>49.5\<close>, the sum of the doubles is
  \<^verbatim>\<open>49.49999999999999\<close>, and the score is \<open>49\<close>.
\<close>

lemma calculateConfidence_example:
  "confidenceScore (calculateConfidence (Finite 15) (Finite 87) (Finite 62) (Finite (1 / 2)))
     = Finite 49
   \<and> verificationStatus (calculateConfidence (Finite 15) (Finite 87) (Finite 62) (Finite (1 / 2)))
     = unverified
   \<and> Math_round (15 * (4 / 10) + 87 * (3 / 10) + 62 * (2 / 10) + 50 * (1 / 10)) = 50"
  by (simp add: calculateConfidence_def confidenceWeights_values double_eval)

lemma scaled_error:
  fixes x p a w :: real
  assumes "0 \<le> x" "x \<le> 100" "\<bar>p - x * a\<bar> \<le> 1 / 2 ^ 43" "\<bar>a - w\<bar> \<le> 1 / 2 ^ 53"
  shows "\<bar>p - x * w\<bar> \<le> 1 / 2 ^ 42"
proof -
  have "\<bar>x * a - x * w\<bar> = x * \<bar>a - w\<bar>"
    using assms(1) by (simp add: abs_mult right_diff_distrib [symmetric])
  also have "\<dots> \<le> 100 * (1 / 2 ^ 53)"
    using assms by (intro mult_mono) auto
  finally have "\<bar>x * a - x * w\<bar> \<le> 100 * (1 / 2 ^ 53)" .
  moreover have "(100 :: real) * (1 / 2 ^ 53) \<le> 1 / 2 ^ 43"
    "(1 :: real) / 2 ^ 43 + 1 / 2 ^ 43 = 1 / 2 ^ 42"
    by simp_all
  ultimately show ?thesis
    using assms(3) by linarith
qed

text \<open>
  For scores between 0 and 100 and a similarity between 0 and 1, no product or sum
  overflows, and the seven roundings together move the weighted sum by less than
  \<open>2\<^sup>-\<^sup>3\<^sup>9\<close>.
\<close>

lemma calculateConfidence_accuracy:
  fixes j rt s d :: real
  assumes j: "0 \<le> j" "j \<le> 100" and rt: "0 \<le> rt" "rt \<le> 100"
    and s: "0 \<le> s" "s \<le> 100" and d: "0 \<le> d" "d \<le> 1"
  defines "r \<equiv> calculateConfidence (Finite j) (Finite rt) (Finite s) (Finite d)"
  shows "\<exists>n k. b_docSimilarity (breakdown r) = Finite (real_of_int n)
           \<and> 0 \<le> n \<and> n \<le> 100
           \<and> Math_round (d * 100 - 1 / 2 ^ 39) \<le> n \<and> n \<le> Math_round (d * 100 + 1 / 2 ^ 39)
           \<and> confidenceScore r = Finite (real_of_int k)
           \<and> Math_round (j * (4 / 10) + rt * (3 / 10) + s * (2 / 10) + real_of_int n * (1 / 10)
                           - 1 / 2 ^ 39) \<le> k
           \<and> k \<le> Math_round (j * (4 / 10) + rt * (3 / 10) + s * (2 / 10) + real_of_int n * (1 / 10)
                                + 1 / 2 ^ 39)"
proof -
  define a1 a2 a3 a4 :: real where "a1 = 3602879701896397 / 2 ^ 53"
    and "a2 = 5404319552844595 / 2 ^ 54" and "a3 = 3602879701896397 / 2 ^ 54"
    and "a4 = 3602879701896397 / 2 ^ 55"
  note a = a1_def a2_def a3_def a4_def
  have w: "w_judge (confidenceWeights ENGINE_CONFIG) = Finite a1"
    "w_runtime (confidenceWeights ENGINE_CONFIG) = Finite a2"
    "w_static (confidenceWeights ENGINE_CONFIG) = Finite a3"
    "w_docSimilarity (confidenceWeights ENGINE_CONFIG) = Finite a4"
    unfolding a by (rule confidenceWeights_values)+
  obtain y0 where y0: "times_double (Finite d) (Finite 100) = Finite y0"
    and e0: "\<bar>y0 - d * 100\<bar> \<le> 1 / 2 ^ 43"
    using times_double_error [of d 100] d by auto
  define n where "n = Math_round y0"
  have t: "(1 :: real) / 2 ^ 43 \<le> 1 / 2 ^ 39" "(1 :: real) / 2 ^ 43 \<le> 1 / 4"
    by simp_all
  have "0 \<le> y0 + 1 / 2" "y0 + 1 / 2 < 101"
    using e0 d t by linarith+
  then have n0: "0 \<le> n" "n \<le> 100"
    unfolding n_def Math_round_def by (simp_all add: floor_le_iff)
  have nb: "Math_round (d * 100 - 1 / 2 ^ 39) \<le> n \<and> n \<le> Math_round (d * 100 + 1 / 2 ^ 39)"
    unfolding n_def using e0 t by (intro Math_round_between) linarith
  have nr: "0 \<le> real_of_int n" "real_of_int n \<le> 100"
    using n0 by simp_all
  obtain p1 where p1: "times_double (Finite j) (Finite a1) = Finite p1"
    and e1: "\<bar>p1 - j * a1\<bar> \<le> 1 / 2 ^ 43"
    using times_double_error [of j a1] j by (auto simp: a abs_mult)
  obtain p2 where p2: "times_double (Finite rt) (Finite a2) = Finite p2"
    and e2: "\<bar>p2 - rt * a2\<bar> \<le> 1 / 2 ^ 43"
    using times_double_error [of rt a2] rt by (auto simp: a abs_mult)
  obtain p3 where p3: "times_double (Finite s) (Finite a3) = Finite p3"
    and e3: "\<bar>p3 - s * a3\<bar> \<le> 1 / 2 ^ 43"
    using times_double_error [of s a3] s by (auto simp: a abs_mult)
  obtain p4 where p4: "times_double (Finite (real_of_int n)) (Finite a4) = Finite p4"
    and e4: "\<bar>p4 - real_of_int n * a4\<bar> \<le> 1 / 2 ^ 43"
    using times_double_error [of "real_of_int n" a4] nr by (auto simp: a abs_mult)
  have b1: "\<bar>p1 - j * (4 / 10)\<bar> \<le> 1 / 2 ^ 42"
    using j e1 by (rule scaled_error) (simp add: a)
  have b2: "\<bar>p2 - rt * (3 / 10)\<bar> \<le> 1 / 2 ^ 42"
    using rt e2 by (rule scaled_error) (simp add: a)
  have b3: "\<bar>p3 - s * (2 / 10)\<bar> \<le> 1 / 2 ^ 42"
    using s e3 by (rule scaled_error) (simp add: a)
  have b4: "\<bar>p4 - real_of_int n * (1 / 10)\<bar> \<le> 1 / 2 ^ 42"
    using nr e4 by (rule scaled_error) (simp add: a)
  have q: "(1 :: real) / 2 ^ 42 \<le> 1" "(1 :: real) / 2 ^ 43 \<le> 1"
    "(1 :: real) / 2 ^ 42 = 2 * (1 / 2 ^ 43)" "(1 :: real) / 2 ^ 39 = 16 * (1 / 2 ^ 43)"
    by simp_all
  have "\<bar>p1 + p2\<bar> \<le> 1024"
    using b1 b2 j rt q by linarith
  from plus_double_error [OF this]
  obtain s1 where s1: "plus_double (Finite p1) (Finite p2) = Finite s1"
    and f1: "\<bar>s1 - (p1 + p2)\<bar> \<le> 1 / 2 ^ 43"
    by blast
  have "\<bar>s1 + p3\<bar> \<le> 1024"
    using f1 b1 b2 b3 j rt s q by linarith
  from plus_double_error [OF this]
  obtain s2 where s2: "plus_double (Finite s1) (Finite p3) = Finite s2"
    and f2: "\<bar>s2 - (s1 + p3)\<bar> \<le> 1 / 2 ^ 43"
    by blast
  have "\<bar>s2 + p4\<bar> \<le> 1024"
    using f1 f2 b1 b2 b3 b4 j rt s nr q by linarith
  from plus_double_error [OF this]
  obtain s3 where s3: "plus_double (Finite s2) (Finite p4) = Finite s3"
    and f3: "\<bar>s3 - (s2 + p4)\<bar> \<le> 1 / 2 ^ 43"
    by blast
  have "\<bar>s3 - (j * (4 / 10) + rt * (3 / 10) + s * (2 / 10) + real_of_int n * (1 / 10))\<bar>
          \<le> 1 / 2 ^ 39"
    using f1 f2 f3 b1 b2 b3 b4 q by linarith
  then have kb:
    "Math_round (j * (4 / 10) + rt * (3 / 10) + s * (2 / 10) + real_of_int n * (1 / 10)
                 - 1 / 2 ^ 39) \<le> Math_round s3
     \<and> Math_round s3
          \<le> Math_round (j * (4 / 10) + rt * (3 / 10) + s * (2 / 10) + real_of_int n * (1 / 10)
                         + 1 / 2 ^ 39)"
    by (rule Math_round_between)
  have "b_docSimilarity (breakdown r) = Finite (real_of_int n)"
    and "confidenceScore r = Finite (real_of_int (Math_round s3))"
    by (simp_all add: r_def calculateConfidence_def Let_def w y0 n_def [symmetric]
        p1 p2 p3 p4 s1 s2 s3 del: times_double.simps plus_double.simps)
  with n0 nb kb show ?thesis
    by blast
qed

text \<open>
  Claim C1, as stated, at the input \<open>(0, 0, 0, 0.046)\<close>: the weighted sum of the spec is
  \<open>0.46\<close> (in doubles \<^verbatim>\<open>0.45999999999999996\<close>), which rounds to \<open>0\<close>, but the code first
  rounds \<open>docSimilarity * 100\<close>, about \<open>4.6\<close>, to \<open>5\<close>, and \<open>5 * 0.1 = 0.5\<close> rounds to \<open>1\<close>.
  The first equation is the code, the second the formula of the spec evaluated in
  doubles, the third the same formula evaluated exactly.
\<close>

theorem calculateConfidence_single_rounding_counterexample:
  "confidenceScore (calculateConfidence (Finite 0) (Finite 0) (Finite 0) (to_double (46 / 1000)))
     = Finite 1
   \<and> Math_round_double
       (plus_double
          (plus_double
             (plus_double (times_double (Finite 0) (to_double (4 / 10)))
                          (times_double (Finite 0) (to_double (3 / 10))))
             (times_double (Finite 0) (to_double (2 / 10))))
          (times_double (times_double (to_double (46 / 1000)) (Finite 100)) (to_double (1 / 10))))
     = Finite 0
   \<and> Math_round (0 * (4 / 10) + 0 * (3 / 10) + 0 * (2 / 10) + ((46 / 1000) * 100) * (1 / 10)) = 0"
  by (simp add: calculateConfidence_def ENGINE_CONFIG_def double_eval)

text \<open>
  Claim C1, amended. For every quadruple of numbers (\<^verbatim>\<open>NaN\<close> and the infinities
  included), the document similarity enters the sum as the already rounded percentage
  \<open>Math.round(docSimilarity * 100)\<close>, which is the value reported in the breakdown, and
  the confidence score is \<open>Math.round\<close> of the weighted sum of the source, its products
  and sums taken from left to right in double arithmetic. The status is \<open>verified\<close>
  exactly when the score is at least 75, the runtime score at least 70 and the static
  score at least 60, \<open>partial\<close> exactly when it is not verified and the score is at least
  50, and \<open>unverified\<close> exactly when the score is not at least 50.

  For scores \<open>j\<close>, \<open>rt\<close>, \<open>s\<close> between 0 and 100 and a similarity \<open>d\<close> between 0 and 1,
  the reported percentage is an integer \<open>n\<close> between 0 and 100 with
  \<open>round(100 d - 2\<^sup>-\<^sup>3\<^sup>9) \<le> n \<le> round(100 d + 2\<^sup>-\<^sup>3\<^sup>9)\<close>, and the score is an integer \<open>k\<close> with
  \<open>round(E - 2\<^sup>-\<^sup>3\<^sup>9) \<le> k \<le> round(E + 2\<^sup>-\<^sup>3\<^sup>9)\<close> for the exact weighted sum
  \<open>E = 0.4 j + 0.3 rt + 0.2 s + 0.1 n\<close>: the score is \<open>round(E)\<close> unless \<open>E\<close> is within
  \<open>2\<^sup>-\<^sup>3\<^sup>9\<close> of a half.
\<close>

theorem calculateConfidence_formula:
  fixes judgeTotal runtimeScore staticScore docSimilarity :: double and j rt s d :: real
  defines "r \<equiv> calculateConfidence judgeTotal runtimeScore staticScore docSimilarity"
  shows "b_docSimilarity (breakdown r) = Math_round_double (times_double docSimilarity (Finite 100))
         \<and> confidenceScore r =
             Math_round_double
               (plus_double
                  (plus_double
                     (plus_double (times_double judgeTotal (to_double (4 / 10)))
                                  (times_double runtimeScore (to_double (3 / 10))))
                     (times_double staticScore (to_double (2 / 10))))
                  (times_double (b_docSimilarity (breakdown r)) (to_double (1 / 10))))
         \<and> (verificationStatus r = verified \<longleftrightarrow>
              at_least (confidenceScore r) 75 \<and> at_least runtimeScore 70 \<and> at_least staticScore 60)
         \<and> (verificationStatus r = partial \<longleftrightarrow>
              \<not> (at_least (confidenceScore r) 75 \<and> at_least runtimeScore 70
                  \<and> at_least staticScore 60)
              \<and> at_least (confidenceScore r) 50)
         \<and> (verificationStatus r = unverified \<longleftrightarrow> \<not> at_least (confidenceScore r) 50)
         \<and> (judgeTotal = Finite j \<and> runtimeScore = Finite rt \<and> staticScore = Finite s
              \<and> docSimilarity = Finite d
              \<and> 0 \<le> j \<and> j \<le> 100 \<and> 0 \<le> rt \<and> rt \<le> 100 \<and> 0 \<le> s \<and> s \<le> 100 \<and> 0 \<le> d \<and> d \<le> 1
            \<longrightarrow> (\<exists>n k. b_docSimilarity (breakdown r) = Finite (real_of_int n)
                    \<and> 0 \<le> n \<and> n \<le> 100
                    \<and> Math_round (d * 100 - 1 / 2 ^ 39) \<le> n
                    \<and> n \<le> Math_round (d * 100 + 1 / 2 ^ 39)
                    \<and> confidenceScore r = Finite (real_of_int k)
                    \<and> Math_round (j * (4 / 10) + rt * (3 / 10) + s * (2 / 10)
                                   + real_of_int n * (1 / 10) - 1 / 2 ^ 39) \<le> k
                    \<and> k \<le> Math_round (j * (4 / 10) + rt * (3 / 10) + s * (2 / 10)
                                        + real_of_int n * (1 / 10) + 1 / 2 ^ 39)))"
proof -
  have monotone: "at_least x 75 \<Longrightarrow> at_least x 50" for x
    by (cases x) simp_all
  have general:
    "b_docSimilarity (breakdown r) = Math_round_double (times_double docSimilarity (Finite 100))"
    "confidenceScore r =
       Math_round_double
         (plus_double
            (plus_double
               (plus_double (times_double judgeTotal (to_double (4 / 10)))
                            (times_double runtimeScore (to_double (3 / 10))))
               (times_double staticScore (to_double (2 / 10))))
            (times_double (b_docSimilarity (breakdown r)) (to_double (1 / 10))))"
    by (simp_all add: r_def calculateConfidence_def ENGINE_CONFIG_def Let_def)
  have status:
    "verificationStatus r = verified \<longleftrightarrow>
       at_least (confidenceScore r) 75 \<and> at_least runtimeScore 70 \<and> at_least staticScore 60"
    "verificationStatus r = partial \<longleftrightarrow>
       \<not> (at_least (confidenceScore r) 75 \<and> at_least runtimeScore 70 \<and> at_least staticScore 60)
       \<and> at_least (confidenceScore r) 50"
    "verificationStatus r = unverified \<longleftrightarrow> \<not> at_least (confidenceScore r) 50"
    using monotone [of "confidenceScore r"]
    by (auto simp add: r_def calculateConfidence_def Let_def)
  show ?thesis
    using general status calculateConfidence_accuracy [of j rt s d]
    unfolding r_def by blast
qed

text \<open>
  The theorem at \<open>(15, 87, 62, 0.5)\<close>, where the exact sum \<open>49.5\<close> is a half: the
  percentage is \<open>50\<close> and the score \<open>49\<close>, between \<open>round(49.5 - 2\<^sup>-\<^sup>3\<^sup>9) = 49\<close> and
  \<open>round(49.5 + 2\<^sup>-\<^sup>3\<^sup>9) = 50\<close>.
\<close>

theorem calculateConfidence_formula_witness:
  "\<exists>n k. b_docSimilarity
            (breakdown (calculateConfidence (Finite 15) (Finite 87) (Finite 62) (Finite (1 / 2))))
            = Finite (real_of_int n)
         \<and> 0 \<le> n \<and> n \<le> 100
         \<and> Math_round (1 / 2 * 100 - 1 / 2 ^ 39) \<le> n \<and> n \<le> Math_round (1 / 2 * 100 + 1 / 2 ^ 39)
         \<and> confidenceScore
             (calculateConfidence (Finite 15) (Finite 87) (Finite 62) (Finite (1 / 2)))
             = Finite (real_of_int k)
         \<and> Math_round (15 * (4 / 10) + 87 * (3 / 10) + 62 * (2 / 10)
                        + real_of_int n * (1 / 10) - 1 / 2 ^ 39) \<le> k
         \<and> k \<le> Math_round (15 * (4 / 10) + 87 * (3 / 10) + 62 * (2 / 10)
                             + real_of_int n * (1 / 10) + 1 / 2 ^ 39)"
proof -
  have "(0 :: real) \<le> 15 \<and> (15 :: real) \<le> 100 \<and> (0 :: real) \<le> 87 \<and> (87 :: real) \<le> 100
        \<and> (0 :: real) \<le> 62 \<and> (62 :: real) \<le> 100 \<and> (0 :: real) \<le> 1 / 2 \<and> (1 :: real) / 2 \<le> 1"
    by simp
  with calculateConfidence_formula [of "Finite 15" "Finite 87" "Finite 62" "Finite (1 / 2)"
      15 87 62 "1 / 2"]
  show ?thesis
    by blast
qed

section \<open>Validation\<close>

lemma staticAnalysis_score_range:
  "0 \<le> sr_score (staticAnalysis test code language)
   \<and> sr_score (staticAnalysis test code language) \<le> 100"
  by (simp add: staticAnalysis_def Let_def split: prod.split)

lemma validateCode_staticScore_range:
  "0 \<le> staticScore (validateCode test reply code language)
   \<and> staticScore (validateCode test reply code language) \<le> 100"
  using staticAnalysis_score_range [of test code language]
  by (simp add: validateCode_def Let_def)

lemma validateCode_passed_iff:
  "passed (validateCode test reply code language) \<longleftrightarrow>
     staticScore (validateCode test reply code language) \<ge> 50
     \<and> runtimeScore (validateCode test reply code language) \<ge> 50"
  by (simp add: validateCode_def Let_def)

text \<open>A failed, unparseable or \<^verbatim>\<open>null\<close> reply degrades to the neutral score 50.\<close>

lemma runtimeValidation_degrades:
  "runtimeValidation (Throws m) = \<lparr> rr_score = 50, rr_error = None \<rparr>"
  "runtimeValidation (Unparseable raw) = \<lparr> rr_score = 50, rr_error = None \<rparr>"
  "runtimeValidation (Parses JNull) = \<lparr> rr_score = 50, rr_error = None \<rparr>"
  by (simp_all add: runtimeValidation_def runtimeValidation_try_def)

text \<open>
  Claim C2 at a reply whose \<^verbatim>\<open>score\<close> is 150: the runtime score of the result is the
  reply's number as it stands, outside \<open>[0,100]\<close>, for every code and language. The
  static score is clamped (\<open>validateCode_staticScore_range\<close>) and \<open>passed\<close> is the
  conjunction of the two thresholds (\<open>validateCode_passed_iff\<close>).
\<close>

theorem validateCode_runtimeScore_unclamped:
  "runtimeScore
     (validateCode test
        (Parses (JObj [(''wouldPass'', JBool True), (''score'', JNum 150), (''error'', JNull)]))
        code language) = 150"
  by (simp add: validateCode_def runtimeValidation_def runtimeValidation_try_def Let_def)

lemma validateCode_negative_score_example:
  "validateCode (\<lambda>p c. False)
     (Parses (JObj [(''wouldPass'', JBool False), (''score'', JNum (- 5)),
                    (''error'', JStr ''boom'')]))
     ''function f() { return 1; }'' ''javascript''
   = \<lparr> staticScore = 100, runtimeScore = - 5, staticIssues = [],
       runtimeError = Some (JStr ''boom''), passed = False \<rparr>"
  by (simp add: validateCode_def runtimeValidation_def runtimeValidation_try_def Let_def
      staticAnalysis_def trim_def is_space_def toLowerCase_def common_checks_def
      javascript_checks_def python_checks_def count_chars_def)

section \<open>Judge\<close>

lemma judge_try_bounds:
  assumes "cs \<noteq> []" and "judge_try coerce cs parsed = Inr r"
  shows "0 \<le> selectedIndex r \<and> selectedIndex r \<le> real (length cs) - 1"
proof -
  from assms(1) have n: "1 \<le> real (length cs)"
    by (cases cs) simp_all
  from assms(2) obtain i entries where
    "r = \<lparr> selectedIndex = max 0 (min i (real (length cs) - 1)), scores = entries,
           reasoning = get parsed ''reasoning'' \<rparr>"
    by (auto simp: judge_try_def split: if_splits option.splits json.splits sum.splits)
  with n show ?thesis by simp
qed

lemma judge_try_malformed:
  "malformed (Parses parsed) \<Longrightarrow> \<exists>e. judge_try coerce cs parsed = Inl e"
  by (auto simp: judge_try_def malformed_def split: option.splits json.splits)

lemma judge_fallback_replicate:
  "judge_fallback cs =
     \<lparr> selectedIndex = 0, scores = replicate (length cs) (flat_score 70),
       reasoning =
         Some (JStr ''Judge response could not be parsed. Defaulting to primary candidate.'') \<rparr>"
  by (simp add: judge_fallback_def map_replicate_const)

text \<open>
  What the clamp gives: for a non-empty candidate list, every result that \<open>judgeCode\<close>
  returns has its \<open>selectedIndex\<close> in the interval of reals from 0 to \<open>N - 1\<close>, whatever
  number the response carries; and with two or more candidates a malformed response (not
  JSON, or without a numeric index or an array of scores) yields index 0 and the flat
  score 70 for every candidate.
\<close>

lemma judgeCode_selectedIndex_interval:
  assumes "cs \<noteq> []"
  shows "(\<forall>r. judgeCode coerce cs reply = Inr r \<longrightarrow>
            0 \<le> selectedIndex r \<and> selectedIndex r \<le> real (length cs) - 1)
         \<and> (length cs \<noteq> 1 \<and> malformed reply \<longrightarrow>
              judgeCode coerce cs reply =
                Inr \<lparr> selectedIndex = 0, scores = replicate (length cs) (flat_score 70),
                      reasoning = Some (JStr (''Judge response could not be parsed. ''
                                              @ ''Defaulting to primary candidate.'')) \<rparr>)"
proof (intro conjI allI impI)
  fix r assume r: "judgeCode coerce cs reply = Inr r"
  from assms have n: "1 \<le> real (length cs)" by (cases cs) simp_all
  show "0 \<le> selectedIndex r" using r n judge_try_bounds [OF assms]
    by (auto simp: judgeCode_def judge_fallback_def split: if_splits completion.splits sum.splits)
  show "selectedIndex r \<le> real (length cs) - 1" using r n judge_try_bounds [OF assms]
    by (auto simp: judgeCode_def judge_fallback_def split: if_splits completion.splits sum.splits)
next
  assume m: "length cs \<noteq> 1 \<and> malformed reply"
  show "judgeCode coerce cs reply =
          Inr \<lparr> selectedIndex = 0, scores = replicate (length cs) (flat_score 70),
                reasoning = Some (JStr (''Judge response could not be parsed. ''
                                        @ ''Defaulting to primary candidate.'')) \<rparr>"
  proof (cases reply)
    case (Throws x)
    with m show ?thesis by (simp add: malformed_def)
  next
    case (Unparseable x)
    with m show ?thesis by (simp add: judgeCode_def judge_fallback_replicate)
  next
    case (Parses p)
    with m judge_try_malformed [of p coerce cs] show ?thesis
      by (auto simp: judgeCode_def judge_fallback_replicate)
  qed
qed

text \<open>
  At two candidates: an index of 7 is clamped to 1, a negative index to 0, and a
  response without an index falls back.
\<close>

lemma judgeCode_selectedIndex_interval_examples:
  "(\<exists>r. judgeCode (\<lambda>a b c d. Inr TotalNaN)
           [\<lparr> c_code = ''a'', c_model = ''m1'', c_role = primary, c_generatedAt = 0 \<rparr>,
            \<lparr> c_code = ''b'', c_model = ''m2'', c_role = alternative, c_generatedAt = 1 \<rparr>]
           (Parses (JObj [(''selectedIndex'', JNum 7), (''scores'', JArr [])])) = Inr r
        \<and> selectedIndex r = 1 \<and> 0 \<le> selectedIndex r \<and> selectedIndex r \<le> 1)
   \<and> (\<exists>r. judgeCode (\<lambda>a b c d. Inr TotalNaN)
           [\<lparr> c_code = ''a'', c_model = ''m1'', c_role = primary, c_generatedAt = 0 \<rparr>,
            \<lparr> c_code = ''b'', c_model = ''m2'', c_role = alternative, c_generatedAt = 1 \<rparr>]
           (Parses (JObj [(''selectedIndex'', JNum (- 3)), (''scores'', JArr [])])) = Inr r
        \<and> selectedIndex r = 0 \<and> 0 \<le> selectedIndex r \<and> selectedIndex r \<le> 1)
   \<and> judgeCode (\<lambda>a b c d. Inr TotalNaN)
           [\<lparr> c_code = ''a'', c_model = ''m1'', c_role = primary, c_generatedAt = 0 \<rparr>,
            \<lparr> c_code = ''b'', c_model = ''m2'', c_role = alternative, c_generatedAt = 1 \<rparr>]
           (Parses (JObj [(''scores'', JArr [])]))
       = Inr \<lparr> selectedIndex = 0, scores = [flat_score 70, flat_score 70],
               reasoning = Some (JStr (''Judge response could not be parsed. ''
                                       @ ''Defaulting to primary candidate.'')) \<rparr>"
proof -
  define cs where "cs =
    [\<lparr> c_code = ''a'', c_model = ''m1'', c_role = primary, c_generatedAt = 0 \<rparr>,
     \<lparr> c_code = ''b'', c_model = ''m2'', c_role = alternative, c_generatedAt = (1::int) \<rparr>]"
  define K :: coercion where "K = (\<lambda>a b c d. Inr TotalNaN)"
  have ne: "cs \<noteq> []" and len: "length cs = 2" by (simp_all add: cs_def)
  have e1: "judgeCode K cs (Parses (JObj [(''selectedIndex'', JNum 7), (''scores'', JArr [])]))
            = Inr \<lparr> selectedIndex = 1, scores = [], reasoning = None \<rparr>"
    by (simp add: judgeCode_def judge_try_def len)
  have e2: "judgeCode K cs (Parses (JObj [(''selectedIndex'', JNum (- 3)), (''scores'', JArr [])]))
            = Inr \<lparr> selectedIndex = 0, scores = [], reasoning = None \<rparr>"
    by (simp add: judgeCode_def judge_try_def len)
  have m: "length cs \<noteq> 1 \<and> malformed (Parses (JObj [(''scores'', JArr [])]))"
    by (simp add: len malformed_def)
  note b1 = judgeCode_selectedIndex_interval [OF ne, of K
      "Parses (JObj [(''selectedIndex'', JNum 7), (''scores'', JArr [])])"]
  note b2 = judgeCode_selectedIndex_interval [OF ne, of K
      "Parses (JObj [(''selectedIndex'', JNum (- 3)), (''scores'', JArr [])])"]
  note b3 = judgeCode_selectedIndex_interval [OF ne, of K "Parses (JObj [(''scores'', JArr [])])"]
  from b1 e1 have w1: "\<exists>r. judgeCode K cs (Parses (JObj [(''selectedIndex'', JNum 7), (''scores'', JArr [])])) = Inr r
        \<and> selectedIndex r = 1 \<and> 0 \<le> selectedIndex r \<and> selectedIndex r \<le> 1"
    by simp
  from b2 e2 have w2: "\<exists>r. judgeCode K cs (Parses (JObj [(''selectedIndex'', JNum (- 3)), (''scores'', JArr [])])) = Inr r
        \<and> selectedIndex r = 0 \<and> 0 \<le> selectedIndex r \<and> selectedIndex r \<le> 1"
    by simp
  from b3 m have w3: "judgeCode K cs (Parses (JObj [(''scores'', JArr [])]))
       = Inr \<lparr> selectedIndex = 0, scores = [flat_score 70, flat_score 70],
               reasoning = Some (JStr (''Judge response could not be parsed. ''
                                       @ ''Defaulting to primary candidate.'')) \<rparr>"
    by (simp add: len numeral_2_eq_2)
  from w1 w2 w3 show ?thesis unfolding cs_def K_def by blast
qed

text \<open>
  Claim C3, at two candidates and the response
  \<^verbatim>\<open>{"selectedIndex": 0.5, "scores": []}\<close>: the index is a number and lies between 0
  and 1, so the clamp returns it as it is, and \<open>judgeCode\<close> returns the selected index
  \<open>0.5\<close>, which is the index of no candidate (\<^verbatim>\<open>candidates[0.5]\<close> is \<^verbatim>\<open>undefined\<close>).
\<close>

theorem judgeCode_fractional_index:
  "judgeCode coerce [c1, c2]
     (Parses (JObj [(''selectedIndex'', JNum (1 / 2)), (''scores'', JArr [])]))
     = Inr \<lparr> selectedIndex = 1 / 2, scores = [], reasoning = None \<rparr>
   \<and> at_index [c1, c2] (1 / 2) = None"
  by (simp add: judgeCode_def judge_try_def at_index_def)

text \<open>The single-candidate shortcut makes no model call and scores 75.\<close>

lemma judgeCode_single_candidate:
  "judgeCode coerce [c] reply =
     Inr \<lparr> selectedIndex = 0, scores = [flat_score 75],
           reasoning = Some (JStr (''Only one candidate was generated. ''
                                   @ ''Scored based on general quality assessment.'')) \<rparr>"
  by (simp add: judgeCode_def)

text \<open>
  Claim C4 at two candidates and a model call that throws: the call stands before the
  \<^verbatim>\<open>try\<close> block, so \<open>judgeCode\<close> throws the call's error instead of returning the
  fallback. (\<open>validateCode\<close> has no throwing path: its model call is inside the
  \<^verbatim>\<open>try\<close> block, see \<open>runtimeValidation_degrades\<close>.)
\<close>

theorem judgeCode_throws_when_call_throws:
  "judgeCode coerce [c1, c2] (Throws m) = Inl (Error m)"
  by (simp add: judgeCode_def)

section \<open>Code generation\<close>

text \<open>
  Claim C5: \<open>generateCode\<close> throws exactly when both model calls are rejected, and then
  its message joins the two failure reasons; when exactly one call is fulfilled it
  returns that call's candidate alone, with its role, and an error list holding the
  other call's reason.
\<close>

theorem generateCode_fails_only_when_both_fail:
  "((\<exists>e. generateCode strip clock p a = Inl e) \<longleftrightarrow> (\<exists>m1 m2. p = Rejected m1 \<and> a = Rejected m2))
   \<and> generateCode strip clock (Rejected m1) (Rejected m2) =
       Inl (Error (''Both code generation models failed: ''
                   @ ''Primary (gpt-4.1-mini): '' @ template m1 @ ''; ''
                   @ ''Alternative (gpt-4o-mini): '' @ template m2))
   \<and> generateCode strip clock (Fulfilled v) (Rejected m2) =
       Inr \<lparr> g_candidates = [\<lparr> c_code = strip v, c_model = ''gpt-4.1-mini'', c_role = primary,
                                 c_generatedAt = clock 0 \<rparr>],
             g_errors = [''Alternative (gpt-4o-mini): '' @ template m2] \<rparr>
   \<and> generateCode strip clock (Rejected m1) (Fulfilled v) =
       Inr \<lparr> g_candidates = [\<lparr> c_code = strip v, c_model = ''gpt-4o-mini'', c_role = alternative,
                                 c_generatedAt = clock 0 \<rparr>],
             g_errors = [''Primary (gpt-4.1-mini): '' @ template m1] \<rparr>"
proof -
  have "(\<exists>e. generateCode strip clock p a = Inl e) \<longleftrightarrow> (\<exists>m1 m2. p = Rejected m1 \<and> a = Rejected m2)"
    by (cases p; cases a) (simp_all add: generateCode_def Let_def)
  then show ?thesis
    by (simp add: generateCode_def ENGINE_CONFIG_def Let_def)
qed

lemma generateCode_both_succeed:
  "generateCode strip clock (Fulfilled a) (Fulfilled b) =
     Inr \<lparr> g_candidates = [\<lparr> c_code = strip a, c_model = ''gpt-4.1-mini'', c_role = primary,
                               c_generatedAt = clock 0 \<rparr>,
                            \<lparr> c_code = strip b, c_model = ''gpt-4o-mini'', c_role = alternative,
                               c_generatedAt = clock 1 \<rparr>],
           g_errors = [] \<rparr>"
  by (simp add: generateCode_def ENGINE_CONFIG_def Let_def)

section \<open>Model gateway\<close>

text \<open>\<open>chatCompletion\<close> gives up at once on an error that is not retryable.\<close>

lemma chatCompletion_no_retry:
  assumes "api 1 = Inl error" and "\<not> isRetryable error"
  shows "chatCompletion api model =
           \<lparr> outcome = Inl (Error (''Azure API error ('' @ model @ ''): '' @ e_message error)),
             slept = [], attempts = 1 \<rparr>"
  using assms unfolding chatCompletion_def
  by (subst chat_loop.simps) (simp add: ENGINE_CONFIG_def chat_attempt_def)

text \<open>
  The attempts of \<open>chatCompletion\<close> are bounded by \<open>maxAttempts\<close>, and before attempt
  \<open>k + 1\<close> it sleeps \<open>min (baseDelayMs * 2 ^ (k - 1)) maxDelayMs\<close>.
\<close>

lemma chat_loop_attempts:
  "attempt \<ge> 1 \<Longrightarrow> attempt \<le> maxAttempts cfg \<Longrightarrow>
   attempts (chat_loop cfg api model attempt delays) \<le> maxAttempts cfg
   \<and> attempt \<le> attempts (chat_loop cfg api model attempt delays)
   \<and> slept (chat_loop cfg api model attempt delays)
       = delays @ map (backoff cfg) [attempt ..< attempts (chat_loop cfg api model attempt delays)]"
proof (induction cfg api model attempt delays rule: chat_loop.induct)
  case (1 cfg api model attempt delays)
  show ?case
  proof (cases "chat_attempt (api attempt)")
    case (Inr content)
    with 1 show ?thesis by (simp add: chat_loop.simps [of cfg api model attempt])
  next
    case (Inl error)
    show ?thesis
    proof (cases "attempt = maxAttempts cfg \<or> \<not> isRetryable error")
      case True
      with Inl 1 show ?thesis by (auto simp add: chat_loop.simps [of cfg api model attempt])
    next
      case False
      with 1 have lt: "attempt + 1 \<le> maxAttempts cfg" by simp
      from 1(1) [OF _ Inl False] 1(2,3) lt False
      have ih: "attempts (chat_loop cfg api model (attempt + 1) (delays @ [backoff cfg attempt]))
                  \<le> maxAttempts cfg
        \<and> attempt + 1 \<le> attempts (chat_loop cfg api model (attempt + 1) (delays @ [backoff cfg attempt]))
        \<and> slept (chat_loop cfg api model (attempt + 1) (delays @ [backoff cfg attempt]))
           = (delays @ [backoff cfg attempt])
             @ map (backoff cfg)
                 [attempt + 1 ..< attempts (chat_loop cfg api model (attempt + 1)
                                              (delays @ [backoff cfg attempt]))]"
        by simp
      have step: "chat_loop cfg api model attempt delays
                  = chat_loop cfg api model (attempt + 1) (delays @ [backoff cfg attempt])"
        using Inl False 1(3) by (simp add: chat_loop.simps [of cfg api model attempt])
      from ih show ?thesis unfolding step
        by (auto simp: upt_conv_Cons)
    qed
  qed
qed

lemma chatCompletion_bounded:
  "attempts (chatCompletion api model) \<le> 3
   \<and> slept (chatCompletion api model)
       = map (\<lambda>k. min (1000 * 2 ^ (k - 1)) 10000) [1 ..< attempts (chatCompletion api model)]"
proof -
  have cfg: "maxAttempts (retry ENGINE_CONFIG) = 3" "backoff (retry ENGINE_CONFIG) = (\<lambda>k. min (1000 * 2 ^ (k - 1)) 10000)"
    by (simp_all add: ENGINE_CONFIG_def backoff_def fun_eq_iff)
  from chat_loop_attempts [of 1 "retry ENGINE_CONFIG" api model "[]"] show ?thesis
    unfolding chatCompletion_def cfg by simp
qed

text \<open>
  Claim C8 at an embedding call whose first attempt fails with HTTP 401 and whose
  second succeeds: 401 is not retryable, yet \<open>createEmbedding\<close> sleeps 1000 ms and tries
  again. Its \<^verbatim>\<open>catch\<close> block has no test of the error.
\<close>

theorem createEmbedding_retries_any_error:
  "createEmbedding
     (\<lambda>attempt. if attempt = 1
                 then Inl \<lparr> e_status = Some 401, e_code = None, e_message = ''Unauthorized'' \<rparr>
                 else Inr [1, 0])
   = \<lparr> outcome = Inr [1, 0], slept = [1000], attempts = 2 \<rparr>
   \<and> \<not> isRetryable \<lparr> e_status = Some 401, e_code = None, e_message = ''Unauthorized'' \<rparr>"
  unfolding createEmbedding_def
  apply (subst embedding_loop.simps)
  apply (subst embedding_loop.simps)
  apply (simp add: ENGINE_CONFIG_def backoff_def isRetryable_def)
  done

section \<open>Retrieval\<close>

lemma cosineSimilarity_examples:
  "cosineSimilarity [1, 0] [0, 1] = 0 \<and> cosineSimilarity [1, 0] [5, 12] = 5 / 13"
  by (simp add: cosineSimilarity_def)

text \<open>
  Claim C7 at six stored chunks of which none reaches the threshold 0.4 against the task
  embedding \<open>[1, 0]\<close>: chunks 0 to 4 score 0 and chunk 5 scores \<open>5/13\<close>. With the default
  options the cached path returns chunks 0 to 4, the first five by chunk index, and
  leaves out the chunk of highest similarity.
\<close>

theorem retrieveRelevantDocs_cached_fallback_by_index:
  "retrieveRelevantDocs sha256 (\<lambda>t. Inr [1, 0])
     [chunk_at 0 ''c0'' [0, 1], chunk_at 1 ''c1'' [0, 1], chunk_at 2 ''c2'' [0, 1],
      chunk_at 3 ''c3'' [0, 1], chunk_at 4 ''c4'' [0, 1], chunk_at 5 ''c5'' [5, 12]]
     ''task'' ''doc'' (default_options \<lparr> o_docId := Some ''d'' \<rparr>)
   = \<lparr> r_context = join separator [''c0'', ''c1'', ''c2'', ''c3'', ''c4''],
       r_similarity = Number (5 / 10) \<rparr>"
  by (simp add: retrieveRelevantDocs_def retrieve_try_def default_options_def find_by_index_def
      matches_def chunk_at_def cosineSimilarity_def by_score_desc_def Let_def)

section \<open>Document ingestion\<close>

text \<open>
  Chunking never loses all the text: a text that is not blank yields at least one chunk.
\<close>

lemma dropWhile_all: "(\<forall>x \<in> set (dropWhile P s). P x) \<longleftrightarrow> (\<forall>x \<in> set s. P x)"
  by (induction s) auto

lemma trim_empty_iff: "trim s = [] \<longleftrightarrow> list_all is_space s"
  by (simp add: trim_def dropWhile_eq_Nil_conv list_all_iff dropWhile_all)

lemma in_set_dropWhile: "x \<in> set xs \<Longrightarrow> \<not> P x \<Longrightarrow> x \<in> set (dropWhile P xs)"
  by (induction xs) auto

lemma newline_is_space: "is_space (CHR 0x0A)"
  by (simp add: is_space_def)

lemma split_blank_lines_nonblank:
  "\<not> list_all is_space (piece @ s) \<Longrightarrow> \<exists>p \<in> set (split_blank_lines piece s). \<not> list_all is_space p"
proof (induction piece s rule: split_blank_lines.induct)
  case (1 piece)
  then show ?case by simp
next
  case (2 piece c)
  then show ?case by simp
next
  case (3 piece c d cs)
  show ?case
  proof (cases "c = CHR 0x0A \<and> d = CHR 0x0A")
    case True
    show ?thesis
    proof (cases "list_all is_space piece")
      case False
      with True show ?thesis by simp
    next
      case blank: True
      with 3(3) True newline_is_space obtain x where x: "x \<in> set cs" "\<not> is_space x"
        by (auto simp: list_all_iff)
      then have "x \<noteq> CHR 0x0A" using newline_is_space by auto
      with x have "x \<in> set (dropWhile (\<lambda>x. x = CHR 0x0A) cs)"
        by (intro in_set_dropWhile) auto
      with x have "\<not> list_all is_space ([] @ dropWhile (\<lambda>x. x = CHR 0x0A) cs)"
        by (auto simp: list_all_iff)
      from 3(1) [OF True this] True show ?thesis by simp
    qed
  next
    case False
    from 3(3) have "\<not> list_all is_space ((piece @ [c]) @ d # cs)" by simp
    from 3(2) [OF False this] False show ?thesis by auto
  qed
qed

lemma split_sentences_nonblank:
  "\<not> list_all is_space (piece @ s) \<Longrightarrow> \<exists>p \<in> set (split_sentences prev piece s). \<not> list_all is_space p"
proof (induction prev piece s rule: split_sentences.induct)
  case (1 prev piece)
  then show ?case by simp
next
  case (2 prev piece c cs)
  let ?split = "is_space c \<and> (prev = Some CHR ''.'' \<or> prev = Some CHR ''!'' \<or> prev = Some CHR ''?'')"
  show ?case
  proof (cases ?split)
    case True
    show ?thesis
    proof (cases "list_all is_space piece")
      case False
      with True show ?thesis by simp
    next
      case blank: True
      with 2(3) True obtain x where x: "x \<in> set cs" "\<not> is_space x"
        by (auto simp: list_all_iff)
      then have "x \<in> set (dropWhile is_space cs)"
        by (intro in_set_dropWhile)
      with x have "\<not> list_all is_space ([] @ dropWhile is_space cs)"
        by (auto simp: list_all_iff)
      from 2(1) [OF True this] True show ?thesis by simp
    qed
  next
    case False
    from 2(3) have "\<not> list_all is_space ((piece @ [c]) @ cs)" by simp
    from 2(2) [OF False this] False show ?thesis by auto
  qed
qed

lemma sentence_step_keeps: "holding acc \<Longrightarrow> holding (sentence_step maxTokens s acc)"
  by (cases acc; cases "snd acc = []") (auto simp: holding_def sentence_step_def Let_def)

lemma sentence_step_nonblank:
  "\<not> list_all is_space s \<Longrightarrow> holding (sentence_step maxTokens s acc)"
  by (cases acc; cases "snd acc = []") (auto simp: holding_def sentence_step_def Let_def)

lemma sentence_step_grows: "fst acc \<noteq> [] \<Longrightarrow> fst (sentence_step maxTokens s acc) \<noteq> []"
  by (cases acc; cases "snd acc = []") (auto simp: sentence_step_def Let_def)

lemma pack_sentences_keeps:
  "holding acc \<Longrightarrow> holding (pack_sentences maxTokens ss acc)"
  by (induction ss arbitrary: acc) (simp_all add: sentence_step_keeps)

lemma pack_sentences_nonblank:
  "\<exists>s \<in> set ss. \<not> list_all is_space s \<Longrightarrow> holding (pack_sentences maxTokens ss acc)"
proof (induction ss arbitrary: acc)
  case Nil
  then show ?case by simp
next
  case (Cons s ss)
  show ?case
  proof (cases "list_all is_space s")
    case True
    with Cons.prems have "\<exists>s \<in> set ss. \<not> list_all is_space s" by auto
    from Cons.IH [OF this] show ?thesis by simp
  next
    case False
    from pack_sentences_keeps [OF sentence_step_nonblank [OF False]] show ?thesis by simp
  qed
qed

lemma pack_sentences_grows:
  "fst acc \<noteq> [] \<Longrightarrow> fst (pack_sentences maxTokens ss acc) \<noteq> []"
  by (induction ss arbitrary: acc) (simp_all add: sentence_step_grows)

lemma paragraph_step_keeps:
  assumes "holding acc"
  shows "holding (paragraph_step maxTokens para acc)"
proof -
  obtain chunks current where acc: "acc = (chunks, current)" by (cases acc)
  obtain chunks' sentChunk where ps:
    "pack_sentences maxTokens (split_sentences None [] para) (chunks, []) = (chunks', sentChunk)"
    by (cases "pack_sentences maxTokens (split_sentences None [] para) (chunks, [])")
  have grow: "chunks \<noteq> [] \<Longrightarrow> chunks' \<noteq> []"
    using pack_sentences_grows [of "(chunks, [])" maxTokens "split_sentences None [] para"] ps
    by simp
  from assms grow show ?thesis
    unfolding acc paragraph_step_def
    by (cases "current = []") (auto simp: holding_def Let_def ps trim_empty_iff)
qed

lemma paragraph_step_nonblank:
  assumes "\<not> list_all is_space para"
  shows "holding (paragraph_step maxTokens para acc)"
proof -
  obtain chunks current where acc: "acc = (chunks, current)" by (cases acc)
  obtain chunks' sentChunk where ps:
    "pack_sentences maxTokens (split_sentences None [] para) (chunks, []) = (chunks', sentChunk)"
    by (cases "pack_sentences maxTokens (split_sentences None [] para) (chunks, [])")
  from assms have "\<exists>s \<in> set (split_sentences None [] para). \<not> list_all is_space s"
    using split_sentences_nonblank [of "[]" para None] by simp
  from pack_sentences_nonblank [OF this, of maxTokens "(chunks, [])"] ps
  have h: "chunks' \<noteq> [] \<or> \<not> list_all is_space sentChunk"
    by (simp add: holding_def)
  from assms h show ?thesis
    unfolding acc paragraph_step_def
    by (cases "current = []") (auto simp: holding_def Let_def ps trim_empty_iff)
qed

lemma pack_paragraphs_keeps:
  "holding acc \<Longrightarrow> holding (pack_paragraphs maxTokens ps acc)"
  by (induction ps arbitrary: acc) (simp_all add: paragraph_step_keeps)

lemma pack_paragraphs_nonblank:
  "\<exists>p \<in> set ps. \<not> list_all is_space p \<Longrightarrow> holding (pack_paragraphs maxTokens ps acc)"
proof (induction ps arbitrary: acc)
  case Nil
  then show ?case by simp
next
  case (Cons p ps)
  show ?case
  proof (cases "list_all is_space p")
    case True
    with Cons.prems have "\<exists>p \<in> set ps. \<not> list_all is_space p" by auto
    from Cons.IH [OF this] show ?thesis by simp
  next
    case False
    from pack_paragraphs_keeps [OF paragraph_step_nonblank [OF False]] show ?thesis by simp
  qed
qed

lemma chunkContent_nonempty:
  assumes "trim text \<noteq> []"
  shows "chunkContent text minTokens maxTokens \<noteq> []"
proof -
  from assms have "\<not> list_all is_space ([] @ text)" by (simp add: trim_empty_iff)
  from split_blank_lines_nonblank [OF this]
  have "holding (pack_paragraphs maxTokens (split_blank_lines [] text) ([], []))"
    by (rule pack_paragraphs_nonblank)
  then show ?thesis
    by (auto simp: chunkContent_def holding_def Let_def trim_empty_iff split: prod.splits)
qed

text \<open>
  A successful run of the storing loop adds one stored chunk of the URL's hash per chunk.
\<close>

lemma DocChunk_create_count:
  "DocChunk_create c stored = Inr stored' \<Longrightarrow>
   countDocuments h stored' = countDocuments h stored + (if dc_urlHash c = h then 1 else 0)"
  by (auto simp: DocChunk_create_def countDocuments_def split: if_splits)

lemma store_chunks_count:
  "store_chunks env docId url urlHash version i chunks w = (None, w') \<Longrightarrow>
   countDocuments urlHash (w_chunks w') = countDocuments urlHash (w_chunks w) + length chunks"
proof (induction chunks arbitrary: i w)
  case Nil
  then show ?case by simp
next
  case (Cons chunk rest)
  let ?doc = "\<lparr> dc_docId = docId, dc_url = url, dc_urlHash = urlHash, dc_version = version,
                   dc_chunkIndex = i, dc_text = chunk, dc_embedding = [],
                   dc_tokenCount = estimateTokens chunk \<rparr>"
  let ?w1 = "w \<lparr> w_embeddings := w_embeddings w @ [chunk] \<rparr>"
  let ?created = "(case env_createEmbedding env (length (w_embeddings w)) chunk of
               Inr embedding \<Rightarrow>
                 (case DocChunk_create (?doc \<lparr> dc_embedding := embedding \<rparr>) (w_chunks ?w1) of
                    Inr stored \<Rightarrow> Inr stored
                  | Inl error \<Rightarrow> DocChunk_create ?doc (w_chunks ?w1))
             | Inl error \<Rightarrow> DocChunk_create ?doc (w_chunks ?w1))"
  from Cons.prems obtain stored where
    created: "?created = Inr stored" and
    rest: "store_chunks env docId url urlHash version (i + 1) rest (?w1 \<lparr> w_chunks := stored \<rparr>) = (None, w')"
    by (cases ?created) (simp_all add: Let_def)
  from created have "countDocuments urlHash stored = countDocuments urlHash (w_chunks w) + 1"
    by (auto split: sum.splits dest!: DocChunk_create_count [where h = urlHash])
  with Cons.IH [OF rest] show ?case by simp
qed

lemma example_chunkContent: "chunkContent ''The quick brown fox jumps over the lazy dog. Twice!!'' 800 1200
   = [''The quick brown fox jumps over the lazy dog. Twice!!'']"
  by (simp add: chunkContent_def paragraph_step_def estimateTokens_def trim_def is_space_def Let_def)

lemma example_first_ingestion:
  "ingestDocument example_env ''https://Example.com/docs'' False empty_world
   = (Inr \<lparr> i_docId = ''uuid-0'', i_url = ''https://Example.com/docs'',
             i_urlHash = ''#https://example.com/docs'', i_version = ''latest'',
             i_chunkCount = 1, i_cached = False \<rparr>,
      \<lparr> w_chunks = [\<lparr> dc_docId = ''uuid-0'', dc_url = ''https://Example.com/docs'',
                       dc_urlHash = ''#https://example.com/docs'', dc_version = ''latest'',
                       dc_chunkIndex = 0,
                       dc_text = ''The quick brown fox jumps over the lazy dog. Twice!!'',
                       dc_embedding = [1, 0], dc_tokenCount = 13 \<rparr>],
        w_fetches = [''https://Example.com/docs''],
        w_embeddings = [''The quick brown fox jumps over the lazy dog. Twice!!''],
        w_uuids = 1 \<rparr>)"
  by (simp add: ingestDocument_def ingest_fresh_def hashUrl_def countDocuments_def example_env_def
      empty_world_def example_chunkContent DocChunk_create_def estimateTokens_def trim_def is_space_def
      toLowerCase_def show_nat.simps Let_def)

text \<open>
  Claim C9: when a call of \<open>ingestDocument\<close> without forced refresh has returned, a
  second call with the same URL returns \<open>cached = true\<close> and the chunk count of the
  first call, and leaves the whole state as it was: the chunk collection (so the stored
  chunk count of the URL's hash), the fetches made and the embedding calls made. The
  count is positive, since a fetched text of 50 characters or more yields a chunk.
\<close>

theorem ingestDocument_idempotent:
  assumes "ingestDocument env url False w0 = (Inr r1, w1)"
  shows "\<exists>r2. ingestDocument env url False w1 = (Inr r2, w1)
              \<and> i_cached r2
              \<and> i_chunkCount r2 = i_chunkCount r1
              \<and> i_chunkCount r2 = countDocuments (hashUrl env url) (w_chunks w1)
              \<and> 0 < i_chunkCount r2"
proof (cases "countDocuments (hashUrl env url) (w_chunks w0) > 0")
  case True
  with assms have "w1 = w0" "i_chunkCount r1 = countDocuments (hashUrl env url) (w_chunks w0)"
    by (auto simp: ingestDocument_def Let_def)
  with True show ?thesis
    by (simp add: ingestDocument_def Let_def)
next
  case False
  with assms have fresh: "ingest_fresh env url (hashUrl env url) w0 = (Inr r1, w1)"
    by (simp add: ingestDocument_def Let_def)
  let ?wf = "w0 \<lparr> w_fetches := w_fetches w0 @ [url] \<rparr>"
  from fresh obtain rawContent where
    fetched: "env_fetchContent env (length (w_fetches w0)) url = Inr rawContent"
    by (cases "env_fetchContent env (length (w_fetches w0)) url") (simp_all add: ingest_fresh_def Let_def)
  from fresh fetched have long: "\<not> (rawContent = [] \<or> length (trim rawContent) < 50)"
    by (auto simp: ingest_fresh_def Let_def split: if_splits)
  let ?chunks = "chunkContent rawContent 800 1200"
  let ?w2 = "?wf \<lparr> w_uuids := w_uuids ?wf + 1 \<rparr>"
  from fresh fetched long have
    stored: "store_chunks env (env_randomUUID env (w_uuids ?wf)) url (hashUrl env url)
               (env_detectVersion env url rawContent) 0 ?chunks ?w2 = (None, w1)"
    and count1: "i_chunkCount r1 = length ?chunks"
    by (auto simp: ingest_fresh_def Let_def split: prod.splits option.splits)
  from long have "trim rawContent \<noteq> []" by auto
  then have ne: "?chunks \<noteq> []" by (rule chunkContent_nonempty)
  from store_chunks_count [OF stored] False
  have count: "countDocuments (hashUrl env url) (w_chunks w1) = length ?chunks"
    by simp
  with ne have pos: "countDocuments (hashUrl env url) (w_chunks w1) > 0" by simp
  with count count1 show ?thesis
    by (simp add: ingestDocument_def Let_def)
qed

text \<open>
  The theorem at the example environment and an empty collection: the first call
  fetches and stores one chunk, the second is answered from the cache.
\<close>

theorem ingestDocument_idempotent_witness:
  "\<exists>r1 w1. ingestDocument example_env ''https://Example.com/docs'' False empty_world = (Inr r1, w1)
      \<and> \<not> i_cached r1
      \<and> w_fetches w1 = [''https://Example.com/docs'']
      \<and> (\<exists>r2. ingestDocument example_env ''https://Example.com/docs'' False w1 = (Inr r2, w1)
                \<and> i_cached r2 \<and> i_chunkCount r2 = 1)"
proof -
  from ingestDocument_idempotent [OF example_first_ingestion]
  obtain r2 where
    "ingestDocument example_env ''https://Example.com/docs'' False
       \<lparr> w_chunks = [\<lparr> dc_docId = ''uuid-0'', dc_url = ''https://Example.com/docs'',
                       dc_urlHash = ''#https://example.com/docs'', dc_version = ''latest'',
                       dc_chunkIndex = 0,
                       dc_text = ''The quick brown fox jumps over the lazy dog. Twice!!'',
                       dc_embedding = [1, 0], dc_tokenCount = 13 \<rparr>],
        w_fetches = [''https://Example.com/docs''],
        w_embeddings = [''The quick brown fox jumps over the lazy dog. Twice!!''],
        w_uuids = 1 \<rparr>
     = (Inr r2,
       \<lparr> w_chunks = [\<lparr> dc_docId = ''uuid-0'', dc_url = ''https://Example.com/docs'',
                       dc_urlHash = ''#https://example.com/docs'', dc_version = ''latest'',
                       dc_chunkIndex = 0,
                       dc_text = ''The quick brown fox jumps over the lazy dog. Twice!!'',
                       dc_embedding = [1, 0], dc_tokenCount = 13 \<rparr>],
        w_fetches = [''https://Example.com/docs''],
        w_embeddings = [''The quick brown fox jumps over the lazy dog. Twice!!''],
        w_uuids = 1 \<rparr>)"
    "i_cached r2" "i_chunkCount r2 = 1"
    by auto
  with example_first_ingestion show ?thesis
    by (intro exI conjI) (assumption | simp)+
qed

section \<open>Orchestrator: stage records\<close>

lemma stage_helpers [simp]:
  "stages (emitStage e m s) = stages s" "started (emitStage e m s) = started s"
  "calls (emitStage e m s) = calls s"
  "stages (invoke c s) = stages s" "started (invoke c s) = started s"
  "calls (invoke c s) = calls s @ [c]"
  "calls (snd (startStage svc n s)) = calls s"
  "calls (endStage svc st s) = calls s"
  by (simp_all add: emitStage_def invoke_def startStage_def endStage_def Let_def)

lemma stage_completes:
  assumes "all_recorded s" and "startStage svc n s = (st, s1)"
    and "stages s2 = stages s1" and "started s2 = started s1"
  shows "all_recorded (endStage svc st s2)" and "last_unrecorded s2"
  using assms
  by (auto simp: all_recorded_def last_unrecorded_def startStage_def endStage_def well_timed_def
      Let_def)

lemma enhance_stage_records:
  assumes "all_recorded s0" and "enhance_stage svc request s0 = (r, s')"
  shows "case r of Inr x \<Rightarrow> all_recorded s' | Inl e \<Rightarrow> last_unrecorded s'"
proof -
  obtain st s1 where st: "startStage svc ''enhancing_task'' s0 = (st, s1)"
    by (cases "startStage svc ''enhancing_task'' s0")
  let ?s3 = "invoke CallEnhance (emitStage ''enhancing_task'' ''Enhancing your task...'' s1)"
  note fin = stage_completes [OF assms(1) st, of ?s3]
  from assms(2) fin show ?thesis
    by (auto simp: enhance_stage_def st Let_def split: sum.splits option.splits)
qed

lemma retrieve_stage_records:
  assumes "all_recorded s0" and "retrieve_stage svc request d s0 = (r, s')"
  shows "all_recorded s'"
proof -
  obtain st s1 where st: "startStage svc ''retrieving_docs'' s0 = (st, s1)"
    by (cases "startStage svc ''retrieving_docs'' s0")
  let ?s2 = "emitStage ''retrieving_docs'' ''Retrieving documentation context...'' s1"
  note a = stage_completes(1) [OF assms(1) st, of ?s2]
  note b = stage_completes(1) [OF assms(1) st, of "invoke CallRetrieve ?s2"]
  from assms(2) a b show ?thesis
    by (auto simp: retrieve_stage_def st Let_def split: if_splits)
qed

lemma generate_stage_records:
  assumes "all_recorded s0" and "generate_stage svc request d c s0 = (r, s')"
  shows "case r of Inr x \<Rightarrow> all_recorded s' | Inl e \<Rightarrow> last_unrecorded s'"
proof -
  obtain st s1 where st: "startStage svc ''generating_code'' s0 = (st, s1)"
    by (cases "startStage svc ''generating_code'' s0")
  let ?s3 = "invoke CallGenerate
               (emitStage ''generating_code'' ''Generating code from multiple models...'' s1)"
  note fin = stage_completes [OF assms(1) st, of ?s3]
  from assms(2) fin show ?thesis
    by (auto simp: generate_stage_def st Let_def split: sum.splits)
qed

lemma judge_stage_records:
  assumes "all_recorded s0" and "judge_stage svc cands d c s0 = (r, s')"
  shows "case r of Inr x \<Rightarrow> all_recorded s' | Inl e \<Rightarrow> last_unrecorded s'"
proof -
  obtain st s1 where st: "startStage svc ''judging'' s0 = (st, s1)"
    by (cases "startStage svc ''judging'' s0")
  let ?s3 = "invoke CallJudge (emitStage ''judging'' ''Comparing and scoring solutions...'' s1)"
  note fin = stage_completes [OF assms(1) st, of ?s3]
  from assms(2) fin show ?thesis
    by (auto simp: judge_stage_def st Let_def split: sum.splits)
qed

lemma validate_stage_records:
  assumes "all_recorded s0" and "validate_stage svc request d cands jr s0 = (r, s')"
  shows "case r of Inr x \<Rightarrow> all_recorded s' | Inl e \<Rightarrow> last_unrecorded s'"
proof -
  obtain st s1 where st: "startStage svc ''validating'' s0 = (st, s1)"
    by (cases "startStage svc ''validating'' s0")
  let ?s2 = "emitStage ''validating'' ''Validating generated code...'' s1"
  note a = stage_completes(2) [OF assms(1) st, of ?s2]
  have b: "all_recorded (endStage svc st (invoke c ?s2))" for c
    by (rule stage_completes(1) [OF assms(1) st]) simp_all
  from assms(2) a b show ?thesis
    by (auto simp: validate_stage_def st Let_def split: sum.splits)
qed

lemma fix_loop_done:
  "\<not> attempt < limit \<Longrightarrow> fix_loop svc limit lang d attempt cv s0 = (Inr cv, s0)"
  by (cases cv) (simp add: fix_loop.simps)

lemma fix_loop_step:
  assumes "attempt < limit" and "startStage svc (fix_stage_name (Suc attempt)) s0 = (st, s1)"
  shows "fix_loop svc limit lang d attempt (code, v) s0 =
           (let s3 = invoke (CallFix code)
                       (emitStage ''fixing_code'' (fix_message (Suc attempt)) s1)
            in case svc_fixCode svc (Suc attempt) code (runtimeError v) lang of
                 Inl e \<Rightarrow> (Inl e, s3)
               | Inr fixed \<Rightarrow>
                   let rv = svc_validateCode svc (Suc attempt) fixed lang d;
                       s5 = endStage svc st (invoke (CallValidate fixed (passed rv)) s3)
                   in if passed rv then (Inr (fixed, rv), s5)
                      else fix_loop svc limit lang d (Suc attempt) (fixed, rv) s5)"
  using assms by (subst fix_loop.simps) (simp add: Let_def split: sum.split)

lemma fix_loop_records:
  "all_recorded s0 \<Longrightarrow> fix_loop svc limit lang d attempt cv s0 = (r, s') \<Longrightarrow>
   (case r of Inr x \<Rightarrow> all_recorded s' | Inl e \<Rightarrow> last_unrecorded s')"
proof (induction "limit - attempt" arbitrary: attempt cv s0)
  case 0
  then show ?case by (auto simp: fix_loop_done)
next
  case (Suc n)
  then have lt: "attempt < limit" and n: "n = limit - Suc attempt" by simp_all
  obtain code v where cv: "cv = (code, v)" by (cases cv)
  obtain st s1 where st: "startStage svc (fix_stage_name (Suc attempt)) s0 = (st, s1)"
    by (cases "startStage svc (fix_stage_name (Suc attempt)) s0")
  let ?s3 = "invoke (CallFix code) (emitStage ''fixing_code'' (fix_message (Suc attempt)) s1)"
  note step = fix_loop_step [OF lt st, of lang d code v]
  show ?case
  proof (cases "svc_fixCode svc (Suc attempt) code (runtimeError v) lang")
    case (Inl e)
    from stage_completes(2) [OF Suc.prems(1) st, of ?s3] Suc.prems(2) Inl show ?thesis
      by (auto simp: cv step Let_def)
  next
    case (Inr fixed)
    let ?v = "svc_validateCode svc (Suc attempt) fixed lang d"
    let ?s5 = "endStage svc st (invoke (CallValidate fixed (passed ?v)) ?s3)"
    have rec: "all_recorded ?s5"
      by (rule stage_completes(1) [OF Suc.prems(1) st]) simp_all
    show ?thesis
    proof (cases "passed ?v")
      case True
      with Suc.prems(2) Inr rec show ?thesis
        by (auto simp: cv step Let_def)
    next
      case False
      with Suc.prems(2) Inr have
        "fix_loop svc limit lang d (Suc attempt) (fixed, ?v) ?s5 = (r, s')"
        by (simp add: cv step Let_def)
      from Suc.hyps(1) [OF n rec this] show ?thesis .
    qed
  qed
qed

lemma repair_records:
  assumes "all_recorded s0" and "repair svc request d cv s0 = (r, s')"
  shows "case r of Inr x \<Rightarrow> all_recorded s' | Inl e \<Rightarrow> last_unrecorded s'"
proof (cases "\<not> passed (snd cv) \<and> truthy (runtimeError (snd cv))")
  case True
  with assms(2) have "fix_loop svc (maxFixAttempts ENGINE_CONFIG) (rq_language request) d 0 cv s0
                      = (r, s')"
    by (simp add: repair_def)
  from fix_loop_records [OF assms(1) this] show ?thesis .
next
  case False
  with assms show ?thesis by (auto simp: repair_def)
qed

lemma audit_stage_records:
  assumes "all_recorded s0" and "audit_stage svc request c s0 = (r, s')"
  shows "all_recorded s'"
proof -
  obtain st s1 where st: "startStage svc ''security_audit'' s0 = (st, s1)"
    by (cases "startStage svc ''security_audit'' s0")
  have "all_recorded (endStage svc st
          (invoke (CallAudit c) (emitStage ''security_audit'' ''Running security audit...'' s1)))"
    by (rule stage_completes(1) [OF assms(1) st]) simp_all
  with assms(2) show ?thesis
    by (auto simp: audit_stage_def st Let_def)
qed

lemma trace_stage_records:
  assumes "all_recorded s0" and "trace_stage svc request c s0 = (r, s')"
  shows "all_recorded s'"
proof -
  obtain st s1 where st: "startStage svc ''trace_mapping'' s0 = (st, s1)"
    by (cases "startStage svc ''trace_mapping'' s0")
  have "all_recorded (endStage svc st
          (invoke (CallTrace c)
             (emitStage ''trace_mapping'' ''Mapping code to documentation...'' s1)))"
    by (rule stage_completes(1) [OF assms(1) st]) simp_all
  with assms(2) show ?thesis
    by (auto simp: trace_stage_def st Let_def)
qed

lemma scoring_stage_records:
  assumes "all_recorded s0" and "scoring_stage svc jr v sim s0 = (r, s')"
  shows "all_recorded s'"
proof -
  obtain st s1 where st: "startStage svc ''scoring'' s0 = (st, s1)"
    by (cases "startStage svc ''scoring'' s0")
  have "all_recorded (endStage svc st
          (emitStage ''scoring'' ''Calculating confidence score...'' s1))"
    by (rule stage_completes(1) [OF assms(1) st]) simp_all
  with assms(2) show ?thesis
    by (auto simp: scoring_stage_def st Let_def)
qed

lemma after_repair_records:
  assumes "all_recorded s0" and "after_repair svc request d c sim cands jr cv s0 = (r, s')"
  shows "all_recorded s'"
proof -
  obtain a s1 where a: "audit_stage svc request (fst cv) s0 = (a, s1)"
    by (cases "audit_stage svc request (fst cv) s0")
  obtain m s2 where m: "trace_stage svc request (fst cv) s1 = (m, s2)"
    by (cases "trace_stage svc request (fst cv) s1")
  obtain k s3 where k: "scoring_stage svc jr (snd cv) sim s2 = (k, s3)"
    by (cases "scoring_stage svc jr (snd cv) sim s2")
  from assms(2) have "s' = s3"
    by (simp add: after_repair_def a m k)
  with scoring_stage_records [OF trace_stage_records [OF audit_stage_records [OF assms(1) a] m] k]
  show ?thesis by simp
qed

lemma run_stages_records:
  assumes "all_recorded s0" and "run_stages svc request s0 = (r, s')"
  shows "case r of Inr x \<Rightarrow> all_recorded s' | Inl e \<Rightarrow> last_unrecorded s'"
proof -
  obtain r1 s1 where e: "enhance_stage svc request s0 = (r1, s1)"
    by (cases "enhance_stage svc request s0")
  note i1 = enhance_stage_records [OF assms(1) e]
  show ?thesis
  proof (cases r1)
    case (Inl err)
    with assms(2) e i1 show ?thesis by (auto simp add: run_stages_def)
  next
    case (Inr d)
    with i1 have a1: "all_recorded s1" by simp
    obtain c sim s2 where rt: "retrieve_stage svc request d s1 = ((c, sim), s2)"
      by (cases "retrieve_stage svc request d s1") auto
    note a2 = retrieve_stage_records [OF a1 rt]
    obtain r3 s3 where g: "generate_stage svc request d c s2 = (r3, s3)"
      by (cases "generate_stage svc request d c s2")
    note i3 = generate_stage_records [OF a2 g]
    show ?thesis
    proof (cases r3)
      case (Inl err)
      with assms(2) e Inr rt g i3 show ?thesis by (auto simp add: run_stages_def)
    next
      case gen: (Inr genResult)
      with i3 have a3: "all_recorded s3" by simp
      obtain r4 s4 where j: "judge_stage svc (g_candidates genResult) d c s3 = (r4, s4)"
        by (cases "judge_stage svc (g_candidates genResult) d c s3")
      note i4 = judge_stage_records [OF a3 j]
      show ?thesis
      proof (cases r4)
        case (Inl err)
        with assms(2) e Inr rt g gen j i4 show ?thesis by (auto simp add: run_stages_def)
      next
        case jr: (Inr judgeResult)
        with i4 have a4: "all_recorded s4" by simp
        obtain r5 s5 where
          v: "validate_stage svc request d (g_candidates genResult) judgeResult s4 = (r5, s5)"
          by (cases "validate_stage svc request d (g_candidates genResult) judgeResult s4")
        note i5 = validate_stage_records [OF a4 v]
        show ?thesis
        proof (cases r5)
          case (Inl err)
          with assms(2) e Inr rt g gen j jr v i5 show ?thesis by (auto simp add: run_stages_def)
        next
          case cv: (Inr cv)
          with i5 have a5: "all_recorded s5" by simp
          obtain r6 s6 where rp: "repair svc request d cv s5 = (r6, s6)"
            by (cases "repair svc request d cv s5")
          note i6 = repair_records [OF a5 rp]
          show ?thesis
          proof (cases r6)
            case (Inl err)
            with assms(2) e Inr rt g gen j jr v cv rp i6 show ?thesis
              by (auto simp add: run_stages_def)
          next
            case cv': (Inr cv')
            with i6 have a6: "all_recorded s6" by simp
            obtain res s7 where
              ar: "after_repair svc request d c sim (g_candidates genResult) judgeResult cv' s6
                   = (res, s7)"
              by (cases "after_repair svc request d c sim (g_candidates genResult) judgeResult
                           cv' s6")
            from after_repair_records [OF a6 ar] assms(2) e Inr rt g gen j jr v cv rp cv' ar
            show ?thesis by (auto simp add: run_stages_def)
          qed
        qed
      qed
    qed
  qed
qed

lemma initial_state_recorded: "all_recorded initial_state"
  by (simp add: all_recorded_def initial_state_def)

lemma fail_run_stages:
  "run_generation (fail_run svc e g s used) = Some (g \<lparr> gen_status := failed,
       gen_errorMessage := Some (error_message e), gen_stages := stages s \<rparr>)
   \<and> stages (run_final (fail_run svc e g s used)) = stages s
   \<and> started (run_final (fail_run svc e g s used)) = started s
   \<and> (\<exists>e'. run_outcome (fail_run svc e g s used) = Inl e')"
  by (simp add: fail_run_def Let_def split: option.split)

section \<open>Orchestrator: the repair loop\<close>

lemma fix_loop_calls:
  "fix_loop svc limit lang d attempt cv s0 = (r, s') \<Longrightarrow>
   \<exists>new. calls s' = calls s0 @ new
     \<and> (new = [] \<longleftrightarrow> \<not> attempt < limit)
     \<and> paired new
     \<and> fix_calls new \<le> limit - attempt
     \<and> validate_calls new \<le> fix_calls new
     \<and> list_all (\<lambda>c. \<not> passing c) (butlast new)
     \<and> (\<forall>code' v'. r = Inr (code', v') \<longrightarrow>
            validate_calls new = fix_calls new
            \<and> (if new = [] then (code', v') = cv
                else last new = CallValidate code' (passed v')
                     \<and> (\<exists>k. v' = svc_validateCode svc k code' lang d)
                     \<and> (passed v' \<or> fix_calls new = limit - attempt)))"
proof (induction "limit - attempt" arbitrary: attempt cv s0)
  case 0
  then have "r = Inr cv" "s' = s0" "\<not> attempt < limit"
    by (auto simp: fix_loop_done)
  then show ?case
    by (intro exI [of _ "[]"]) (auto simp: fix_calls_def validate_calls_def)
next
  case (Suc n)
  then have lt: "attempt < limit" and n: "n = limit - Suc attempt" by simp_all
  obtain code v where cv: "cv = (code, v)" by (cases cv)
  obtain st s1 where st: "startStage svc (fix_stage_name (Suc attempt)) s0 = (st, s1)"
    by (cases "startStage svc (fix_stage_name (Suc attempt)) s0")
  then have c1: "calls s1 = calls s0"
    using stage_helpers(7) [of svc "fix_stage_name (Suc attempt)" s0] by simp
  let ?s3 = "invoke (CallFix code) (emitStage ''fixing_code'' (fix_message (Suc attempt)) s1)"
  note step = fix_loop_step [OF lt st, of lang d code v]
  show ?case
  proof (cases "svc_fixCode svc (Suc attempt) code (runtimeError v) lang")
    case (Inl e)
    with Suc.prems have "r = Inl e" "s' = ?s3"
      by (auto simp: cv step Let_def)
    with c1 lt show ?thesis
      by (intro exI [of _ "[CallFix code]"]) (auto simp: fix_calls_def validate_calls_def)
  next
    case (Inr fixed)
    let ?v = "svc_validateCode svc (Suc attempt) fixed lang d"
    let ?s5 = "endStage svc st (invoke (CallValidate fixed (passed ?v)) ?s3)"
    have c5: "calls ?s5 = calls s0 @ [CallFix code, CallValidate fixed (passed ?v)]"
      by (simp add: c1)
    show ?thesis
    proof (cases "passed ?v")
      case True
      with Suc.prems Inr have "r = Inr (fixed, ?v)" "s' = ?s5"
        by (auto simp: cv step Let_def)
      with c5 lt True show ?thesis
        by (intro exI [of _ "[CallFix code, CallValidate fixed (passed ?v)]"])
           (auto simp: fix_calls_def validate_calls_def)
    next
      case False
      with Suc.prems Inr have
        rest: "fix_loop svc limit lang d (Suc attempt) (fixed, ?v) ?s5 = (r, s')"
        by (simp add: cv step Let_def)
      from Suc.hyps(1) [OF n rest] obtain new where new:
        "calls s' = calls ?s5 @ new"
        "new = [] \<longleftrightarrow> \<not> Suc attempt < limit"
        "paired new"
        "fix_calls new \<le> limit - Suc attempt"
        "validate_calls new \<le> fix_calls new"
        "list_all (\<lambda>c. \<not> passing c) (butlast new)"
        "\<forall>code' v'. r = Inr (code', v') \<longrightarrow>
            validate_calls new = fix_calls new
            \<and> (if new = [] then (code', v') = (fixed, ?v)
                else last new = CallValidate code' (passed v')
                     \<and> (\<exists>k. v' = svc_validateCode svc k code' lang d)
                     \<and> (passed v' \<or> fix_calls new = limit - Suc attempt))"
        by blast
      let ?new = "CallFix code # CallValidate fixed (passed ?v) # new"
      have a: "calls s' = calls s0 @ ?new" using new(1) c5 by simp
      have b: "paired ?new" using new(3) by simp
      have c: "fix_calls ?new = Suc (fix_calls new)" "validate_calls ?new = Suc (validate_calls new)"
        by (simp_all add: fix_calls_def validate_calls_def)
      have d: "list_all (\<lambda>c. \<not> passing c) (butlast ?new)"
        using new(6) False by (cases new) simp_all
      have e: "validate_calls ?new = fix_calls ?new
            \<and> last ?new = CallValidate code' (passed v')
            \<and> (\<exists>k. v' = svc_validateCode svc k code' lang d)
            \<and> (passed v' \<or> fix_calls ?new = limit - attempt)"
        if r: "r = Inr (code', v')" for code' v'
      proof (cases "new = []")
        case True
        with new(7) r have "code' = fixed" "v' = ?v" by auto
        moreover from True new(2) lt have "limit - attempt = 1" by simp
        ultimately show ?thesis using True by (auto simp: fix_calls_def validate_calls_def)
      next
        case ne: False
        with new(7) r have
          "validate_calls new = fix_calls new"
          "last new = CallValidate code' (passed v')"
          "\<exists>k. v' = svc_validateCode svc k code' lang d"
          "passed v' \<or> fix_calls new = limit - Suc attempt"
          by auto
        with ne lt new(4) show ?thesis unfolding c by auto
      qed
      from a b c d e new(4,5) lt show ?thesis
        by (intro exI [of _ ?new]) (auto simp: cv)
    qed
  qed
qed

lemma fix_loop_returns:
  assumes "\<forall>k c e l. \<exists>c'. svc_fixCode svc k c e l = Inr c'"
  shows "\<exists>cv'. fst (fix_loop svc limit lang d attempt cv s0) = Inr cv'"
proof (induction "limit - attempt" arbitrary: attempt cv s0)
  case 0
  then show ?case by (simp add: fix_loop_done)
next
  case (Suc n)
  then have lt: "attempt < limit" and n: "n = limit - Suc attempt" by simp_all
  obtain code v where cv: "cv = (code, v)" by (cases cv)
  obtain st s1 where st: "startStage svc (fix_stage_name (Suc attempt)) s0 = (st, s1)"
    by (cases "startStage svc (fix_stage_name (Suc attempt)) s0")
  from assms obtain fixed where
    fixed: "svc_fixCode svc (Suc attempt) code (runtimeError v) lang = Inr fixed"
    by blast
  show ?case
    using Suc.hyps(1) [OF n]
    by (simp add: cv fix_loop_step [OF lt st] fixed Let_def)
qed

lemma example_repair:
  "repair example_services example_request ''do it'' (''x'', failing_validation) initial_state
   = (Inr (''x!!'', failing_validation),
      \<lparr> stages = [\<lparr> stage_name = ''runtime_fix_1'', stage_status = ''completed'',
                     startedAt = 0, completedAt = Some 5, durationMs = Some 5 \<rparr>,
                   \<lparr> stage_name = ''runtime_fix_2'', stage_status = ''completed'',
                     startedAt = 10, completedAt = Some 15, durationMs = Some 5 \<rparr>],
        emitted = [StageEvent ''fixing_code'' ''Fixing code (attempt 1)...'',
                   StageEvent ''fixing_code'' ''Fixing code (attempt 2)...''],
        ticks = 4,
        started = [''runtime_fix_1'', ''runtime_fix_2''],
        calls = [CallFix ''x'', CallValidate ''x!'' False,
                 CallFix ''x!'', CallValidate ''x!!'' False] \<rparr>)"
  by (simp add: repair_def fix_loop.simps ENGINE_CONFIG_def failing_validation_def
      example_services_def example_request_def initial_state_def startStage_def endStage_def
      emitStage_def invoke_def fix_stage_name_def fix_message_def show_nat.simps Let_def)

text \<open>
  Claim C6: the repair calls \<open>new\<close> that \<open>repair\<close> adds to the record are empty unless the
  initial validation failed with a runtime error; each validation directly follows a
  repair; there are at most \<open>maxFixAttempts = 2\<close> repairs; no validation before the last
  one passed (the loop leaves at the first pass); and when the loop ran and returns, the
  selected code is the code of the last attempt, validated last, whether it passed or the
  attempts are used up. The loop is a total function: when no repair call throws it
  returns a result.
\<close>

theorem repair_loop_bounded:
  assumes "repair svc request d (code, v) s = (r, s')"
  shows "\<exists>new. calls s' = calls s @ new
           \<and> (new \<noteq> [] \<longleftrightarrow> \<not> passed v \<and> truthy (runtimeError v))
           \<and> paired new
           \<and> fix_calls new \<le> maxFixAttempts ENGINE_CONFIG
           \<and> maxFixAttempts ENGINE_CONFIG = 2
           \<and> validate_calls new \<le> fix_calls new
           \<and> list_all (\<lambda>c. \<not> passing c) (butlast new)
           \<and> (\<forall>code' v'. r = Inr (code', v') \<longrightarrow>
                  validate_calls new = fix_calls new
                  \<and> (if new = [] then code' = code \<and> v' = v
                      else last new = CallValidate code' (passed v')
                           \<and> (\<exists>k. v' = svc_validateCode svc k code' (rq_language request) d)
                           \<and> (passed v' \<or> fix_calls new = maxFixAttempts ENGINE_CONFIG)))
           \<and> ((\<forall>k c e l. \<exists>c'. svc_fixCode svc k c e l = Inr c') \<longrightarrow> (\<exists>cv'. r = Inr cv'))"
proof (cases "\<not> passed v \<and> truthy (runtimeError v)")
  case False
  with assms have "r = Inr (code, v)" "s' = s"
    by (auto simp: repair_def)
  with False show ?thesis
    by (intro exI [of _ "[]"]) (auto simp: fix_calls_def validate_calls_def ENGINE_CONFIG_def)
next
  case True
  with assms have loop:
    "fix_loop svc (maxFixAttempts ENGINE_CONFIG) (rq_language request) d 0 (code, v) s = (r, s')"
    by (simp add: repair_def)
  have two: "maxFixAttempts ENGINE_CONFIG = 2" by (simp add: ENGINE_CONFIG_def)
  from fix_loop_calls [OF loop] obtain new where new:
    "calls s' = calls s @ new"
    "new = [] \<longleftrightarrow> \<not> 0 < maxFixAttempts ENGINE_CONFIG"
    "paired new"
    "fix_calls new \<le> maxFixAttempts ENGINE_CONFIG - 0"
    "validate_calls new \<le> fix_calls new"
    "list_all (\<lambda>c. \<not> passing c) (butlast new)"
    "\<forall>code' v'. r = Inr (code', v') \<longrightarrow>
        validate_calls new = fix_calls new
        \<and> (if new = [] then (code', v') = (code, v)
            else last new = CallValidate code' (passed v')
                 \<and> (\<exists>k. v' = svc_validateCode svc k code' (rq_language request) d)
                 \<and> (passed v' \<or> fix_calls new = maxFixAttempts ENGINE_CONFIG - 0))"
    by blast
  from new(2) two have ne: "new \<noteq> []" by simp
  have ret: "(\<forall>k c e l. \<exists>c'. svc_fixCode svc k c e l = Inr c') \<longrightarrow> (\<exists>cv'. r = Inr cv')"
    using fix_loop_returns [of svc "maxFixAttempts ENGINE_CONFIG" "rq_language request" d 0
        "(code, v)" s] loop
    by auto
  from new(1,3,4,5,6,7) ne True two ret show ?thesis
    by (intro exI [of _ new]) auto
qed

text \<open>
  The theorem at a validator that always fails: two repairs, two validations, and the
  code of the second attempt is kept.
\<close>

theorem repair_loop_bounded_witness:
  "repair example_services example_request ''do it'' (''x'', failing_validation) initial_state
     = (Inr (''x!!'', failing_validation),
        \<lparr> stages = [\<lparr> stage_name = ''runtime_fix_1'', stage_status = ''completed'',
                       startedAt = 0, completedAt = Some 5, durationMs = Some 5 \<rparr>,
                     \<lparr> stage_name = ''runtime_fix_2'', stage_status = ''completed'',
                       startedAt = 10, completedAt = Some 15, durationMs = Some 5 \<rparr>],
          emitted = [StageEvent ''fixing_code'' ''Fixing code (attempt 1)...'',
                     StageEvent ''fixing_code'' ''Fixing code (attempt 2)...''],
          ticks = 4,
          started = [''runtime_fix_1'', ''runtime_fix_2''],
          calls = [CallFix ''x'', CallValidate ''x!'' False,
                   CallFix ''x!'', CallValidate ''x!!'' False] \<rparr>)
   \<and> (\<exists>new. new = [CallFix ''x'', CallValidate ''x!'' False,
                     CallFix ''x!'', CallValidate ''x!!'' False]
          \<and> paired new \<and> fix_calls new = 2 \<and> validate_calls new = 2
          \<and> last new = CallValidate ''x!!'' False)"
proof -
  from repair_loop_bounded [OF example_repair]
  obtain new where new:
    "calls \<lparr> stages = [\<lparr> stage_name = ''runtime_fix_1'', stage_status = ''completed'',
                       startedAt = 0, completedAt = Some 5, durationMs = Some 5 \<rparr>,
                     \<lparr> stage_name = ''runtime_fix_2'', stage_status = ''completed'',
                       startedAt = 10, completedAt = Some 15, durationMs = Some 5 \<rparr>],
          emitted = [StageEvent ''fixing_code'' ''Fixing code (attempt 1)...'',
                     StageEvent ''fixing_code'' ''Fixing code (attempt 2)...''],
          ticks = 4,
          started = [''runtime_fix_1'', ''runtime_fix_2''],
          calls = [CallFix ''x'', CallValidate ''x!'' False,
                   CallFix ''x!'', CallValidate ''x!!'' False] \<rparr>
       = calls initial_state @ new"
    "paired new" "fix_calls new \<le> 2" "validate_calls new \<le> fix_calls new"
    by auto
  then have "new = [CallFix ''x'', CallValidate ''x!'' False,
                    CallFix ''x!'', CallValidate ''x!!'' False]"
    by (simp add: initial_state_def)
  with new(2) example_repair show ?thesis
    by (simp add: fix_calls_def validate_calls_def)
qed

section \<open>Orchestrator: every completed stage is recorded\<close>

text \<open>
  Claim C10, as stated, at an enhancement call that throws: the stage
  \<open>enhancing_task\<close> was started, and the failed generation has no stage record at all.
\<close>

theorem runPipeline_failed_stage_counterexample:
  "started (run_final (runPipeline failing_services example_request)) = [''enhancing_task'']
   \<and> (\<exists>g. run_generation (runPipeline failing_services example_request) = Some g
          \<and> gen_stages g = [] \<and> gen_status g = failed)"
  by (simp add: runPipeline_def run_stages_def enhance_stage_def fail_run_def new_generation_def
      failing_services_def example_services_def example_request_def initial_state_def
      startStage_def emitStage_def invoke_def Let_def)

text \<open>
  Claim C10, amended: once the generation document exists, its \<open>stages\<close> list is the
  list collected by the run, and every entry is completed with its start time, completion
  time and duration. When the stages ran through (the run succeeds, or fails only while
  saving), every stage started with \<open>startStage\<close> has its entry, in order, one per
  repair attempt included. When a stage throws, every started stage but that last one
  has its entry: the stage that threw has none. (The final saving step is announced as
  the progress event \<open>finalizing\<close> and is not a stage of the list.)
\<close>

theorem runPipeline_records_completed_stages:
  assumes "svc_persist svc CreateGeneration = None"
  shows "\<exists>g. run_generation (runPipeline svc request) = Some g
           \<and> gen_stages g = stages (run_final (runPipeline svc request))
           \<and> list_all well_timed (gen_stages g)
           \<and> ((\<exists>result. fst (run_stages svc request initial_state) = Inr result) \<longrightarrow>
                 map stage_name (gen_stages g) = started (run_final (runPipeline svc request)))
           \<and> ((\<exists>response. run_outcome (runPipeline svc request) = Inr response) \<longrightarrow>
                 map stage_name (gen_stages g) = started (run_final (runPipeline svc request)))
           \<and> ((\<exists>e. fst (run_stages svc request initial_state) = Inl e) \<longrightarrow>
                 started (run_final (runPipeline svc request)) \<noteq> []
                 \<and> map stage_name (gen_stages g)
                     = butlast (started (run_final (runPipeline svc request))))"
proof -
  obtain r s where rs: "run_stages svc request initial_state = (r, s)"
    by (cases "run_stages svc request initial_state")
  note inv = run_stages_records [OF initial_state_recorded rs]
  show ?thesis
  proof (cases r)
    case (Inl e)
    with inv have "last_unrecorded s" by simp
    with Inl rs assms fail_run_stages [of svc e new_generation s 0] show ?thesis
      by (auto simp: runPipeline_def last_unrecorded_def)
  next
    case (Inr result)
    with inv have a: "all_recorded s" by simp
    let ?s1 = "emitStage ''finalizing'' ''Saving results...'' s"
    have fin: "\<exists>g. run_generation (finalize svc request result s) = Some g
        \<and> gen_stages g = stages s
        \<and> stages (run_final (finalize svc request result s)) = stages s
        \<and> started (run_final (finalize svc request result s)) = started s"
      by (auto simp: finalize_def Let_def fail_run_def split: option.split)
    with Inr rs assms a show ?thesis
      by (auto simp: runPipeline_def all_recorded_def)
  qed
qed

lemma example_run_started:
  "started (run_final (runPipeline example_services example_request))
   = [''enhancing_task'', ''retrieving_docs'', ''generating_code'', ''judging'', ''validating'',
      ''runtime_fix_1'', ''runtime_fix_2'', ''security_audit'', ''trace_mapping'', ''scoring'']"
  by (simp add: runPipeline_def run_stages_def enhance_stage_def retrieve_stage_def
      generate_stage_def judge_stage_def validate_stage_def select_code_def at_index_def
      after_repair_def audit_stage_def trace_stage_def scoring_stage_def finalize_def
      repair_def fix_loop.simps ENGINE_CONFIG_def failing_validation_def
      example_services_def example_request_def initial_state_def startStage_def endStage_def
      emitStage_def invoke_def fix_stage_name_def fix_message_def show_nat.simps Let_def
      trim_def is_space_def)

text \<open>
  The theorem at the example services (ten stages, two of them repair attempts whose
  validation failed) and at the enhancement call that throws.
\<close>

theorem runPipeline_records_completed_stages_witness:
  "(\<exists>g. run_generation (runPipeline example_services example_request) = Some g
        \<and> map stage_name (gen_stages g)
            = [''enhancing_task'', ''retrieving_docs'', ''generating_code'', ''judging'',
               ''validating'', ''runtime_fix_1'', ''runtime_fix_2'', ''security_audit'',
               ''trace_mapping'', ''scoring'']
        \<and> list_all well_timed (gen_stages g))
   \<and> (\<exists>g. run_generation (runPipeline failing_services example_request) = Some g
        \<and> map stage_name (gen_stages g) = []
        \<and> started (run_final (runPipeline failing_services example_request))
            = [''enhancing_task''])"
proof -
  have p1: "svc_persist example_services CreateGeneration = None"
    and p2: "svc_persist failing_services CreateGeneration = None"
    by (simp_all add: example_services_def failing_services_def)
  have ok: "\<exists>response. run_outcome (runPipeline example_services example_request) = Inr response"
    by (simp add: runPipeline_def run_stages_def enhance_stage_def retrieve_stage_def
      generate_stage_def judge_stage_def validate_stage_def select_code_def at_index_def
      after_repair_def audit_stage_def trace_stage_def scoring_stage_def finalize_def
      repair_def fix_loop.simps ENGINE_CONFIG_def failing_validation_def
      example_services_def example_request_def initial_state_def startStage_def endStage_def
      emitStage_def invoke_def fix_stage_name_def fix_message_def show_nat.simps Let_def
      trim_def is_space_def)
  have bad: "\<exists>e. fst (run_stages failing_services example_request initial_state) = Inl e"
    by (simp add: run_stages_def enhance_stage_def
      failing_services_def example_services_def example_request_def initial_state_def
      startStage_def emitStage_def invoke_def Let_def)
  have st: "started (run_final (runPipeline failing_services example_request)) = [''enhancing_task'']"
    by (simp add: runPipeline_def run_stages_def enhance_stage_def fail_run_def new_generation_def
      failing_services_def example_services_def example_request_def initial_state_def
      startStage_def emitStage_def invoke_def Let_def)
  from runPipeline_records_completed_stages [OF p1, of example_request]
  obtain g1 where g1:
    "run_generation (runPipeline example_services example_request) = Some g1"
    "list_all well_timed (gen_stages g1)"
    "(\<exists>response. run_outcome (runPipeline example_services example_request) = Inr response) \<longrightarrow>
       map stage_name (gen_stages g1)
         = started (run_final (runPipeline example_services example_request))"
    by blast
  from g1(3) ok have
    "map stage_name (gen_stages g1)
       = started (run_final (runPipeline example_services example_request))"
    by blast
  with g1(1,2) have w1: "\<exists>g. run_generation (runPipeline example_services example_request) = Some g
        \<and> map stage_name (gen_stages g)
            = [''enhancing_task'', ''retrieving_docs'', ''generating_code'', ''judging'',
               ''validating'', ''runtime_fix_1'', ''runtime_fix_2'', ''security_audit'',
               ''trace_mapping'', ''scoring'']
        \<and> list_all well_timed (gen_stages g)"
    by (simp add: example_run_started)
  from runPipeline_records_completed_stages [OF p2, of example_request]
  obtain g2 where g2:
    "run_generation (runPipeline failing_services example_request) = Some g2"
    "(\<exists>e. fst (run_stages failing_services example_request initial_state) = Inl e) \<longrightarrow>
       started (run_final (runPipeline failing_services example_request)) \<noteq> []
       \<and> map stage_name (gen_stages g2)
           = butlast (started (run_final (runPipeline failing_services example_request)))"
    by blast
  from g2(2) bad have
    "map stage_name (gen_stages g2)
       = butlast (started (run_final (runPipeline failing_services example_request)))"
    by blast
  with g2(1) have w2: "\<exists>g. run_generation (runPipeline failing_services example_request) = Some g
        \<and> map stage_name (gen_stages g) = []
        \<and> started (run_final (runPipeline failing_services example_request))
            = [''enhancing_task'']"
    by (simp add: st)
  from w1 w2 show ?thesis by simp
qed

end
